theory Spec2Isabelle
  imports Complex_Main
begin

section \<open>Conventions of the embedding\<close>

text \<open>
  The program is a single C++ file, \<^verbatim>\<open>main.cpp\<close>. Its \<^verbatim>\<open>float\<close> and \<^verbatim>\<open>double\<close>
  values are embedded as \<^typ>\<open>real\<close>: rounding, infinities and NaN are outside the model,
  \<^verbatim>\<open>M_PI\<close> is \<^term>\<open>pi\<close>, and \<^verbatim>\<open>sinf\<close>, \<^verbatim>\<open>cosf\<close> and \<^verbatim>\<open>sqrt\<close> are \<^const>\<open>sin\<close>, \<^const>\<open>cos\<close> and
  \<^const>\<open>sqrt\<close>. A \<^verbatim>\<open>float\<close> loop counter that runs over \<open>0, 1, 2, \<dots>\<close> is a natural number.
  An \<^verbatim>\<open>int\<close> is an \<^typ>\<open>int\<close> and an \<^verbatim>\<open>unsigned int\<close> a \<^typ>\<open>nat\<close>, both unbounded: the
  model is exact as long as no integer operation of the program overflows, which is so
  for every truncation order \<open>n \<le> 46340\<close> and every mesh of fewer than \<open>2\<^sup>3\<^sup>1\<close> vertices
  (the program runs with \<open>n = 35\<close> and \<open>N = M = 200\<close>).

  A read past the end of an array or of a \<^verbatim>\<open>std::vector\<close> is undefined behaviour in C++;
  the model makes it the error value \<open>OutOfRange\<close>, which ends the computation. A
  floating-point division by zero is no error in C++, it yields an infinity or NaN;
  what is proved about a quotient is proved where the divisor is not zero.

  The globals \<^verbatim>\<open>A\<close> and \<^verbatim>\<open>coeffs\<close> are written once in \<^verbatim>\<open>onInitialization\<close> and only read
  afterwards, so they are parameters of the functions that read them.
\<close>

datatype error = OutOfRange

datatype vec3 = vec3 (vec3_x: real) (vec3_y: real) (vec3_z: real)

datatype vec4 = vec4 (vec4_x: real) (vec4_y: real) (vec4_z: real) (vec4_w: real)

text \<open>
  \<^verbatim>\<open>vec2\<close> of \<^verbatim>\<open>framework.h\<close> with its componentwise sum and difference and its product
  with a scalar: the type of the derivative in \<^verbatim>\<open>Dnum2\<close>.
\<close>

datatype vec2 = vec2 (vec2_x: real) (vec2_y: real)

instantiation vec2 :: real_vector
begin

definition zero_vec2 :: vec2 where
  "zero_vec2 = vec2 0 0"

definition plus_vec2 :: "vec2 \<Rightarrow> vec2 \<Rightarrow> vec2" where
  "plus_vec2 a b = vec2 (vec2_x a + vec2_x b) (vec2_y a + vec2_y b)"

definition minus_vec2 :: "vec2 \<Rightarrow> vec2 \<Rightarrow> vec2" where
  "minus_vec2 a b = vec2 (vec2_x a - vec2_x b) (vec2_y a - vec2_y b)"

definition uminus_vec2 :: "vec2 \<Rightarrow> vec2" where
  "uminus_vec2 a = vec2 (- vec2_x a) (- vec2_y a)"

definition scaleR_vec2 :: "real \<Rightarrow> vec2 \<Rightarrow> vec2" where
  "scaleR_vec2 s a = vec2 (s * vec2_x a) (s * vec2_y a)"

instance
  by standard
    (simp_all add: zero_vec2_def plus_vec2_def minus_vec2_def uminus_vec2_def scaleR_vec2_def
      algebra_simps)

end

text \<open>
  The swizzle \<^verbatim>\<open>.xyz\<close> of GLSL, a \<^verbatim>\<open>vec3\<close> times a scalar, and the difference of two
  \<^verbatim>\<open>vec3\<close>.
\<close>

definition xyz :: "vec4 \<Rightarrow> vec3" where
  "xyz p = vec3 (vec4_x p) (vec4_y p) (vec4_z p)"

definition vec3_times :: "vec3 \<Rightarrow> real \<Rightarrow> vec3" where
  "vec3_times a s = vec3 (vec3_x a * s) (vec3_y a * s) (vec3_z a * s)"

definition vec3_minus :: "vec3 \<Rightarrow> vec3 \<Rightarrow> vec3" where
  "vec3_minus a b = vec3 (vec3_x a - vec3_x b) (vec3_y a - vec3_y b) (vec3_z a - vec3_z b)"

text \<open>
  Modelled from the spec: the Euclidean length of a \<^verbatim>\<open>vec3\<close> and \<^verbatim>\<open>normalize\<close>, which the
  program takes from \<^verbatim>\<open>framework.h\<close>; the header is not among the sources. They state what
  a unit-length normal is.
\<close>

definition vec3_length :: "vec3 \<Rightarrow> real" where
  "vec3_length v = sqrt ((vec3_x v)\<^sup>2 + (vec3_y v)\<^sup>2 + (vec3_z v)\<^sup>2)"

definition normalize :: "vec3 \<Rightarrow> vec3" where
  "normalize v = vec3_times v (1 / vec3_length v)"

text \<open>
  A \<^verbatim>\<open>for\<close> loop over the values \<open>is\<close> with loop state \<open>s\<close>; the first error of a body
  ends the loop.
\<close>

fun for_each :: "'i list \<Rightarrow> ('i \<Rightarrow> 's \<Rightarrow> error + 's) \<Rightarrow> 's \<Rightarrow> error + 's" where
  "for_each [] body s = Inr s"
| "for_each (i # is) body s =
     (case body i s of Inl e \<Rightarrow> Inl e | Inr s' \<Rightarrow> for_each is body s')"

section \<open>Spectral height field\<close>

text \<open>
  \<^verbatim>\<open>double E(double A, int one, int two)\<close>, lines 132 to 134; \<^verbatim>\<open>powf(\<cdot>, 2)\<close> is the square.
\<close>

definition E :: "real \<Rightarrow> int \<Rightarrow> int \<Rightarrow> real" where
  "E A one two =
     (if one + two = 0 then 0
      else A / sqrt ((of_int one)\<^sup>2 + (of_int two)\<^sup>2))"

text \<open>The read \<^verbatim>\<open>coeffs[k]\<close> of the phase table with an \<^verbatim>\<open>int\<close> index.\<close>

definition coeff_at :: "real list \<Rightarrow> int \<Rightarrow> error + real" where
  "coeff_at coeffs k =
     (if 0 \<le> k \<and> nat k < length coeffs then Inr (coeffs ! nat k) else Inl OutOfRange)"

text \<open>
  \<^verbatim>\<open>getTerrainInfo\<close>, lines 140 to 176: three double loops over \<open>one, two = 0, \<dots>, n\<close>, for
  the height and the two sums of the normal. The results \<^verbatim>\<open>height\<close> and \<^verbatim>\<open>norm\<close>, which
  the source writes through references, are returned as a pair.
\<close>

definition getTerrainInfo ::
  "real \<Rightarrow> real list \<Rightarrow> real \<Rightarrow> real \<Rightarrow> int \<Rightarrow> error + (real \<times> vec3)" where
  "getTerrainInfo A coeffs x0 y0 n =
     (let x = x0 * pi - pi;
          y = y0 * pi - pi
      in
      (case for_each [0..<nat (n + 1)] (\<lambda>one.
              for_each [0..<nat (n + 1)] (\<lambda>two total.
                (case coeff_at coeffs (int one * n + int two) of
                   Inl err \<Rightarrow> Inl err
                 | Inr ph \<Rightarrow>
                     (let e = E A (int one) (int two);
                          c = cos (real one * x + real two * y + ph)
                      in Inr (total + e * c))))) 0 of
         Inl err \<Rightarrow> Inl err
       | Inr height \<Rightarrow>
      (case for_each [0..<nat (n + 1)] (\<lambda>one.
              for_each [0..<nat (n + 1)] (\<lambda>two dx.
                (case coeff_at coeffs (int one * n + int two) of
                   Inl err \<Rightarrow> Inl err
                 | Inr ph \<Rightarrow>
                     (let e = E A (int one) (int two);
                          c = - 1 * sin (real one * x + real two * y + ph) * real one
                      in Inr (dx + e * c))))) 0 of
         Inl err \<Rightarrow> Inl err
       | Inr dx \<Rightarrow>
      (case for_each [0..<nat (n + 1)] (\<lambda>one.
              for_each [0..<nat (n + 1)] (\<lambda>two dy.
                (case coeff_at coeffs (int one * n + int two) of
                   Inl err \<Rightarrow> Inl err
                 | Inr ph \<Rightarrow>
                     (let e = E A (int one) (int two);
                          c = - 1 * sin (real one * x + real two * y + ph) * real two
                      in Inr (dy + e * c))))) 0 of
         Inl err \<Rightarrow> Inl err
       | Inr dy \<Rightarrow> Inr (height, vec3 (- dx) 1 (- dy))))))"


section \<open>Tessellation of the terrain\<close>

record VertexData =
  position :: vec3
  normal :: vec3
  h :: real

text \<open>
  \<^verbatim>\<open>ParamSurface::GenVertexData\<close>, lines 315 to 338: one sample of the height field with the
  truncation order 35, placed on the 15 by 15 square.
\<close>

definition GenVertexData :: "real \<Rightarrow> real list \<Rightarrow> real \<Rightarrow> real \<Rightarrow> error + VertexData" where
  "GenVertexData A coeffs u v =
     (case getTerrainInfo A coeffs u v 35 of
        Inl err \<Rightarrow> Inl err
      | Inr (height, nrm) \<Rightarrow>
          Inr \<lparr>position = vec3 (u * 15 - 7.5) height (v * 15 - 7.5),
               normal = nrm,
               h = height\<rparr>)"

text \<open>
  The fields of a \<^verbatim>\<open>ParamSurface\<close> together with the vertex buffer that \<^verbatim>\<open>create\<close> hands to
  \<^verbatim>\<open>glBufferData\<close>.
\<close>

record ParamSurface =
  nVtxPerStrip :: nat
  nStrips :: nat
  vbo :: "VertexData list"

text \<open>
  \<^verbatim>\<open>ParamSurface::create\<close>, lines 344 to 349: the two nested loops that push two vertices
  for every \<open>(i, j)\<close>.
\<close>

definition genStrips :: "real \<Rightarrow> real list \<Rightarrow> int \<Rightarrow> int \<Rightarrow> error + VertexData list" where
  "genStrips A coeffs N M =
     for_each [0..<nat N] (\<lambda>i.
       for_each [0..<nat (M + 1)] (\<lambda>j vtxData.
         (case GenVertexData A coeffs (real j / of_int M) (real i / of_int N) of
            Inl err \<Rightarrow> Inl err
          | Inr v1 \<Rightarrow>
         (case GenVertexData A coeffs (real j / of_int M) (real (i + 1) / of_int N) of
            Inl err \<Rightarrow> Inl err
          | Inr v2 \<Rightarrow> Inr ((vtxData @ [v1]) @ [v2]))))) []"

text \<open>
  Lines 351 to 359: the scan for the smallest and the largest height. It starts from
  \<^verbatim>\<open>vtxData[0]\<close>, which is a read out of range when the vector is empty.
\<close>

definition heightRange :: "VertexData list \<Rightarrow> error + (real \<times> real)" where
  "heightRange vtxData =
     (if length vtxData = 0 then Inl OutOfRange
      else Inr (fold (\<lambda>i (hmin, hmax).
                  if h (vtxData ! i) > hmax then (hmin, h (vtxData ! i))
                  else if h (vtxData ! i) < hmin then (h (vtxData ! i), hmax)
                  else (hmin, hmax))
                [1..<length vtxData] (h (vtxData ! 0), h (vtxData ! 0))))"

text \<open>Lines 361 and 362: every height is rescaled in place.\<close>

definition normalizeHeights :: "real \<Rightarrow> real \<Rightarrow> VertexData list \<Rightarrow> VertexData list" where
  "normalizeHeights hmin hmax vtxData =
     fold (\<lambda>i vs. vs[i := (vs ! i)\<lparr>h := (h (vs ! i) - hmin) / (hmax - hmin)\<rparr>])
       [0..<length vtxData] vtxData"

text \<open>
  \<^verbatim>\<open>ParamSurface::create\<close>, lines 340 to 373. \<^verbatim>\<open>glBufferData\<close> copies the first
  \<^verbatim>\<open>nVtxPerStrip * nStrips\<close> vertices of the vector.
\<close>

definition create :: "real \<Rightarrow> real list \<Rightarrow> int \<Rightarrow> int \<Rightarrow> error + ParamSurface" where
  "create A coeffs N M =
     (case genStrips A coeffs N M of
        Inl err \<Rightarrow> Inl err
      | Inr vtxData \<Rightarrow>
     (case heightRange vtxData of
        Inl err \<Rightarrow> Inl err
      | Inr (hmin, hmax) \<Rightarrow>
          Inr \<lparr>nVtxPerStrip = nat ((M + 1) * 2),
               nStrips = nat N,
               vbo = take (nat ((M + 1) * 2) * nat N) (normalizeHeights hmin hmax vtxData)\<rparr>))"

text \<open>
  \<^verbatim>\<open>ParamSurface::Draw\<close>, lines 375 to 378: the calls of \<^verbatim>\<open>glDrawArrays\<close>, each with its
  first vertex and its number of vertices.
\<close>

definition Draw :: "ParamSurface \<Rightarrow> (nat \<times> nat) list" where
  "Draw ps = map (\<lambda>i. (i * nVtxPerStrip ps, nVtxPerStrip ps)) [0..<nStrips ps]"

section \<open>Dual numbers\<close>

text \<open>
  \<^verbatim>\<open>template<class T> struct Dnum\<close>, lines 13 to 26. The type \<^verbatim>\<open>T\<close> of the derivative is
  added, subtracted, and multiplied and divided by a \<^verbatim>\<open>float\<close>: it is a real vector
  space, with \<open>a *\<^sub>R v\<close> for both \<^verbatim>\<open>a * v\<close> and \<^verbatim>\<open>v * a\<close> and \<open>v /\<^sub>R a\<close> for \<^verbatim>\<open>v / a\<close>.
\<close>

datatype 'a Dnum = Dnum (Dnum_f: real) (Dnum_d: 'a)

type_synonym Dnum2 = "vec2 Dnum"

text \<open>The four operators \<^verbatim>\<open>+\<close>, \<^verbatim>\<open>-\<close>, \<^verbatim>\<open>*\<close> and \<^verbatim>\<open>/\<close> of the struct.\<close>

definition Dnum_plus :: "'a::real_vector Dnum \<Rightarrow> 'a Dnum \<Rightarrow> 'a Dnum" where
  "Dnum_plus l r = Dnum (Dnum_f l + Dnum_f r) (Dnum_d l + Dnum_d r)"

definition Dnum_minus :: "'a::real_vector Dnum \<Rightarrow> 'a Dnum \<Rightarrow> 'a Dnum" where
  "Dnum_minus l r = Dnum (Dnum_f l - Dnum_f r) (Dnum_d l - Dnum_d r)"

definition Dnum_times :: "'a::real_vector Dnum \<Rightarrow> 'a Dnum \<Rightarrow> 'a Dnum" where
  "Dnum_times l r =
     Dnum (Dnum_f l * Dnum_f r) (Dnum_f l *\<^sub>R Dnum_d r + Dnum_f r *\<^sub>R Dnum_d l)"

definition Dnum_divide :: "'a::real_vector Dnum \<Rightarrow> 'a Dnum \<Rightarrow> 'a Dnum" where
  "Dnum_divide l r =
     Dnum (Dnum_f l / Dnum_f r)
       (((Dnum_f r *\<^sub>R Dnum_d l - Dnum_f l *\<^sub>R Dnum_d r) /\<^sub>R Dnum_f r) /\<^sub>R Dnum_f r)"

text \<open>
  \<^verbatim>\<open>powf\<close> of the C library, where its value is finite: for a positive base it is
  \<open>powr\<close>; for the base 0 it is 1 with the exponent 0 and 0 with a positive exponent; for
  a negative base and an exponent that is an integer it is the integer power, with its
  sign. In the remaining cases \<^verbatim>\<open>powf\<close> returns an infinity (base 0, negative exponent) or
  NaN (negative base, exponent not an integer); they are outside the model, and what is
  proved about \<^verbatim>\<open>Pow\<close> is proved away from them. Likewise \<^verbatim>\<open>logf\<close> is \<^const>\<open>ln\<close> for a
  positive argument, where it is finite.
\<close>

definition powf :: "real \<Rightarrow> real \<Rightarrow> real" where
  "powf x y =
     (if 0 < x then x powr y
      else if x = 0 then (if y = 0 then 1 else 0)
      else if y = of_int \<lfloor>y\<rfloor> then x powi \<lfloor>y\<rfloor>
      else 0)"

text \<open>The elementary functions, lines 29 to 39.\<close>

definition Exp :: "'a::real_vector Dnum \<Rightarrow> 'a Dnum" where
  "Exp g = Dnum (exp (Dnum_f g)) (exp (Dnum_f g) *\<^sub>R Dnum_d g)"

definition Sin :: "'a::real_vector Dnum \<Rightarrow> 'a Dnum" where
  "Sin g = Dnum (sin (Dnum_f g)) (cos (Dnum_f g) *\<^sub>R Dnum_d g)"

definition Cos :: "'a::real_vector Dnum \<Rightarrow> 'a Dnum" where
  "Cos g = Dnum (cos (Dnum_f g)) (- sin (Dnum_f g) *\<^sub>R Dnum_d g)"

definition Tan :: "'a::real_vector Dnum \<Rightarrow> 'a Dnum" where
  "Tan g = Dnum_divide (Sin g) (Cos g)"

definition Sinh :: "'a::real_vector Dnum \<Rightarrow> 'a Dnum" where
  "Sinh g = Dnum (sinh (Dnum_f g)) (cosh (Dnum_f g) *\<^sub>R Dnum_d g)"

definition Cosh :: "'a::real_vector Dnum \<Rightarrow> 'a Dnum" where
  "Cosh g = Dnum (cosh (Dnum_f g)) (sinh (Dnum_f g) *\<^sub>R Dnum_d g)"

definition Tanh :: "'a::real_vector Dnum \<Rightarrow> 'a Dnum" where
  "Tanh g = Dnum_divide (Sinh g) (Cosh g)"

definition Log :: "'a::real_vector Dnum \<Rightarrow> 'a Dnum" where
  "Log g = Dnum (ln (Dnum_f g)) (Dnum_d g /\<^sub>R Dnum_f g)"

definition Pow_Dnum :: "'a::real_vector Dnum \<Rightarrow> real \<Rightarrow> 'a Dnum" where
  "Pow_Dnum g n = Dnum (powf (Dnum_f g) n) ((n * powf (Dnum_f g) (n - 1)) *\<^sub>R Dnum_d g)"

section \<open>Lights in the vertex shader\<close>

record Light =
  La :: vec3
  Le :: vec3
  wLightPos :: vec4

text \<open>
  The loop of \<^verbatim>\<open>main\<close> in \<^verbatim>\<open>PhongShader::vertexSource\<close>, lines 209 to 211, for the world
  position \<^verbatim>\<open>wPos\<close> of line 208: the entries \<open>0, \<dots>, nLights - 1\<close> of the output \<^verbatim>\<open>wLight\<close>.
\<close>

definition wLight :: "Light list \<Rightarrow> nat \<Rightarrow> vec4 \<Rightarrow> vec3 list" where
  "wLight lights nLights wPos =
     map (\<lambda>i. vec3_minus (vec3_times (xyz (wLightPos (lights ! i))) (vec4_w wPos))
                         (vec3_times (xyz wPos) (vec4_w (wLightPos (lights ! i)))))
       [0..<nLights]"

section \<open>Objects of the scene\<close>

text \<open>
  \<^verbatim>\<open>struct Object\<close>, lines 402 to 439. The four pointers are the addresses they hold.
\<close>

record Object =
  shader :: nat
  material :: nat
  texture :: nat
  geometry :: nat
  scale :: vec3
  translation :: vec3
  rotationAxis :: vec3
  rotationAngle :: real

definition Animate :: "Object \<Rightarrow> real \<Rightarrow> real \<Rightarrow> Object" where
  "Animate obj tstart tend = obj\<lparr>rotationAngle := 0.8 * tend\<rparr>"

section \<open>The loops of the height field as sums\<close>

lemma for_each_phase_sum:
  "for_each js (\<lambda>j acc. (case coeff_at cs (k j) of Inl err \<Rightarrow> Inl err
                                | Inr ph \<Rightarrow> Inr (acc + t j ph))) s =
     (if \<forall>j\<in>set js. 0 \<le> k j \<and> nat (k j) < length cs
      then Inr (s + (\<Sum>j\<leftarrow>js. t j (cs ! nat (k j))))
      else Inl OutOfRange)"
proof (induction js arbitrary: s)
  case Nil
  show ?case by simp
next
  case (Cons j js)
  define ok where "ok = (\<lambda>j. 0 \<le> k j \<and> nat (k j) < length cs)"
  have rd: "coeff_at cs (k j) = (if ok j then Inr (cs ! nat (k j)) else Inl OutOfRange)"
    by (simp add: coeff_at_def ok_def)
  have IH: "for_each js (\<lambda>j acc. (case coeff_at cs (k j) of Inl err \<Rightarrow> Inl err
                                | Inr ph \<Rightarrow> Inr (acc + t j ph))) s' =
     (if \<forall>j\<in>set js. ok j then Inr (s' + (\<Sum>j\<leftarrow>js. t j (cs ! nat (k j))))
      else Inl OutOfRange)" for s'
    unfolding ok_def by (rule Cons.IH)
  have "for_each (j # js) (\<lambda>j acc. (case coeff_at cs (k j) of Inl err \<Rightarrow> Inl err
                                | Inr ph \<Rightarrow> Inr (acc + t j ph))) s =
     (if \<forall>j\<in>set (j # js). ok j
      then Inr (s + (\<Sum>j\<leftarrow>j # js. t j (cs ! nat (k j))))
      else Inl OutOfRange)"
    by (cases "ok j") (simp_all add: rd IH add.assoc)
  then show ?case
    unfolding ok_def .
qed

lemma for_each_double_sum:
  "for_each is (\<lambda>i. for_each js (\<lambda>j acc.
       (case coeff_at cs (k i j) of Inl err \<Rightarrow> Inl err
        | Inr ph \<Rightarrow> Inr (acc + t i j ph)))) s =
     (if \<forall>i\<in>set is. \<forall>j\<in>set js. 0 \<le> k i j \<and> nat (k i j) < length cs
      then Inr (s + (\<Sum>i\<leftarrow>is. \<Sum>j\<leftarrow>js. t i j (cs ! nat (k i j))))
      else Inl OutOfRange)"
proof (induction "is" arbitrary: s)
  case Nil
  show ?case by simp
next
  case (Cons i "is")
  define body where "body = (\<lambda>i. for_each js (\<lambda>j acc.
       (case coeff_at cs (k i j) of Inl err \<Rightarrow> Inl err
        | Inr ph \<Rightarrow> Inr (acc + t i j ph))))"
  define ok where "ok = (\<lambda>i. \<forall>j\<in>set js. 0 \<le> k i j \<and> nat (k i j) < length cs)"
  define row where "row = (\<lambda>i. \<Sum>j\<leftarrow>js. t i j (cs ! nat (k i j)))"
  have inner: "body i s' = (if ok i then Inr (s' + row i) else Inl OutOfRange)" for i s'
    unfolding body_def ok_def row_def by (rule for_each_phase_sum)
  have IH: "for_each is body s' =
      (if \<forall>i\<in>set is. ok i then Inr (s' + (\<Sum>i\<leftarrow>is. row i)) else Inl OutOfRange)" for s'
    unfolding body_def ok_def row_def by (rule Cons.IH)
  have "for_each (i # is) body s =
      (if \<forall>i\<in>set (i # is). ok i then Inr (s + (\<Sum>i\<leftarrow>i # is. row i)) else Inl OutOfRange)"
    by (cases "ok i") (simp_all add: inner IH add.assoc)
  then show ?case
    unfolding body_def ok_def row_def .
qed


lemma image_int_upto: "int ` {0..<nat (n + 1)} = {0..n}"
proof
  show "int ` {0..<nat (n + 1)} \<subseteq> {0..n}" by auto
  show "{0..n} \<subseteq> int ` {0..<nat (n + 1)}"
  proof
    fix i assume "i \<in> {0..n}"
    then have "i = int (nat i)" and "nat i \<in> {0..<nat (n + 1)}" by auto
    then show "i \<in> int ` {0..<nat (n + 1)}" by (rule image_eqI)
  qed
qed

lemma sum_list_counter:
  "(\<Sum>i\<leftarrow>[0..<nat (n + 1)]. f (int i)) = (\<Sum>i = 0..n. (f i :: real))"
proof -
  have "(\<Sum>i\<leftarrow>[0..<nat (n + 1)]. f (int i)) = (\<Sum>i\<in>{0..<nat (n + 1)}. f (int i))"
    by (simp add: interv_sum_list_conv_sum_set_nat)
  also have "\<dots> = (\<Sum>i\<in>int ` {0..<nat (n + 1)}. f i)"
    by (simp add: sum.reindex)
  finally show ?thesis
    by (simp only: image_int_upto)
qed

lemma reads_in_range_iff:
  "(\<forall>i\<in>set [0..<nat (n + 1)]. \<forall>j\<in>set [0..<nat (n + 1)].
       0 \<le> int i * n + int j \<and> nat (int i * n + int j) < length cs)
   \<longleftrightarrow> (\<forall>i\<in>{0..n}. \<forall>j\<in>{0..n}. nat (i * n + j) < length cs)"
  (is "?L \<longleftrightarrow> ?R")
proof
  assume L: ?L
  show ?R
  proof (intro ballI)
    fix i j assume "i \<in> {0..n}" "j \<in> {0..n}"
    then have "nat i \<in> set [0..<nat (n + 1)]" "nat j \<in> set [0..<nat (n + 1)]"
      and "int (nat i) = i" "int (nat j) = j" by auto
    with L show "nat (i * n + j) < length cs" by metis
  qed
next
  assume R: ?R
  show ?L
  proof (intro ballI conjI)
    fix i j assume ij: "i \<in> set [0..<nat (n + 1)]" "j \<in> set [0..<nat (n + 1)]"
    then have "0 \<le> n" by auto
    then show "0 \<le> int i * n + int j" by simp
    from ij have "int i \<in> {0..n}" "int j \<in> {0..n}" by auto
    with R show "nat (int i * n + int j) < length cs" by blast
  qed
qed

lemma largest_read:
  "(\<forall>i\<in>{0..n}. \<forall>j\<in>{0..n}. nat (i * n + j) < length cs)
   \<longleftrightarrow> n < 0 \<or> n * n + n < int (length (cs :: real list))"
  (is "?L \<longleftrightarrow> ?R")
proof (cases "n < 0")
  case True
  then show ?thesis by simp
next
  case False
  then have n: "0 \<le> n" by simp
  show ?thesis
  proof
    assume ?L
    with n have "nat (n * n + n) < length cs" by simp
    with n show ?R by simp
  next
    assume R: ?R
    show ?L
    proof (intro ballI)
      fix i j assume ij: "i \<in> {0..n}" "j \<in> {0..n}"
      then have "i * n \<le> n * n" by (simp add: mult_right_mono)
      with ij have "i * n + j \<le> n * n + n" by simp
      moreover from R False have "n * n + n < int (length cs)" by simp
      ultimately have "i * n + j < int (length cs)" by (rule le_less_trans)
      moreover from ij n have "0 \<le> i * n + j" by simp
      ultimately show "nat (i * n + j) < length cs" by (simp add: nat_less_iff)
    qed
  qed
qed


lemma double_loop_sum:
  "for_each [0..<nat (n + 1)] (\<lambda>one. for_each [0..<nat (n + 1)] (\<lambda>two acc.
       (case coeff_at cs (int one * n + int two) of Inl err \<Rightarrow> Inl err
        | Inr ph \<Rightarrow> Inr (acc + t (int one) (int two) ph)))) 0 =
     (if \<forall>i\<in>{0..n}. \<forall>j\<in>{0..n}. nat (i * n + j) < length cs
      then Inr (\<Sum>i = 0..n. \<Sum>j = 0..n. (t i j (cs ! nat (i * n + j)) :: real))
      else Inl OutOfRange)"
proof -
  have inner: "(\<Sum>j\<leftarrow>[0..<nat (n + 1)]. t i (int j) (cs ! nat (i * n + int j))) =
      (\<Sum>j = 0..n. t i j (cs ! nat (i * n + j)))" for i
    by (rule sum_list_counter [of "\<lambda>j. t i j (cs ! nat (i * n + j))"])
  have outer: "(\<Sum>i\<leftarrow>[0..<nat (n + 1)]. \<Sum>j = 0..n. t (int i) j (cs ! nat (int i * n + j))) =
      (\<Sum>i = 0..n. \<Sum>j = 0..n. t i j (cs ! nat (i * n + j)))"
    by (rule sum_list_counter [of "\<lambda>i. \<Sum>j = 0..n. t i j (cs ! nat (i * n + j))"])
  show ?thesis
    unfolding for_each_double_sum [where cs = cs and k = "\<lambda>one two. int one * n + int two"
        and t = "\<lambda>one two. t (int one) (int two)"] reads_in_range_iff
    by (simp only: inner outer add_0)
qed

lemma getTerrainInfo_sums:
  "getTerrainInfo A cs x0 y0 n =
     (if \<forall>i\<in>{0..n}. \<forall>j\<in>{0..n}. nat (i * n + j) < length cs
      then Inr (\<Sum>i = 0..n. \<Sum>j = 0..n.
                  E A i j * cos (of_int i * (x0 * pi - pi) + of_int j * (y0 * pi - pi)
                                 + cs ! nat (i * n + j)),
                vec3 (- (\<Sum>i = 0..n. \<Sum>j = 0..n.
                          E A i j * (- 1 * sin (of_int i * (x0 * pi - pi)
                                       + of_int j * (y0 * pi - pi) + cs ! nat (i * n + j))
                                     * of_int i)))
                     1
                     (- (\<Sum>i = 0..n. \<Sum>j = 0..n.
                          E A i j * (- 1 * sin (of_int i * (x0 * pi - pi)
                                       + of_int j * (y0 * pi - pi) + cs ! nat (i * n + j))
                                     * of_int j))))
      else Inl OutOfRange)"
proof -
  define x where "x = x0 * pi - pi"
  define y where "y = y0 * pi - pi"
  have height: "for_each [0..<nat (n + 1)] (\<lambda>one. for_each [0..<nat (n + 1)] (\<lambda>two total.
       (case coeff_at cs (int one * n + int two) of Inl err \<Rightarrow> Inl err
        | Inr ph \<Rightarrow> Inr (total + E A (int one) (int two)
                                   * cos (real one * x + real two * y + ph))))) 0 =
     (if \<forall>i\<in>{0..n}. \<forall>j\<in>{0..n}. nat (i * n + j) < length cs
      then Inr (\<Sum>i = 0..n. \<Sum>j = 0..n.
                  E A i j * cos (of_int i * x + of_int j * y + cs ! nat (i * n + j)))
      else Inl OutOfRange)"
    using double_loop_sum [where n = n and cs = cs and t = "\<lambda>i j ph. E A i j * cos (of_int i * x + of_int j * y + ph)"]
    by (simp only: of_int_of_nat_eq cong: sum.case_cong)
  have dx: "for_each [0..<nat (n + 1)] (\<lambda>one. for_each [0..<nat (n + 1)] (\<lambda>two dx.
       (case coeff_at cs (int one * n + int two) of Inl err \<Rightarrow> Inl err
        | Inr ph \<Rightarrow> Inr (dx + E A (int one) (int two)
                                   * (- 1 * sin (real one * x + real two * y + ph) * real one))))) 0 =
     (if \<forall>i\<in>{0..n}. \<forall>j\<in>{0..n}. nat (i * n + j) < length cs
      then Inr (\<Sum>i = 0..n. \<Sum>j = 0..n.
                  E A i j * (- 1 * sin (of_int i * x + of_int j * y + cs ! nat (i * n + j))
                             * of_int i))
      else Inl OutOfRange)"
    using double_loop_sum [where n = n and cs = cs and t =
        "\<lambda>i j ph. E A i j * (- 1 * sin (of_int i * x + of_int j * y + ph) * of_int i)"]
    by (simp only: of_int_of_nat_eq cong: sum.case_cong)
  have dy: "for_each [0..<nat (n + 1)] (\<lambda>one. for_each [0..<nat (n + 1)] (\<lambda>two dy.
       (case coeff_at cs (int one * n + int two) of Inl err \<Rightarrow> Inl err
        | Inr ph \<Rightarrow> Inr (dy + E A (int one) (int two)
                                   * (- 1 * sin (real one * x + real two * y + ph) * real two))))) 0 =
     (if \<forall>i\<in>{0..n}. \<forall>j\<in>{0..n}. nat (i * n + j) < length cs
      then Inr (\<Sum>i = 0..n. \<Sum>j = 0..n.
                  E A i j * (- 1 * sin (of_int i * x + of_int j * y + cs ! nat (i * n + j))
                             * of_int j))
      else Inl OutOfRange)"
    using double_loop_sum [where n = n and cs = cs and t =
        "\<lambda>i j ph. E A i j * (- 1 * sin (of_int i * x + of_int j * y + ph) * of_int j)"]
    by (simp only: of_int_of_nat_eq cong: sum.case_cong)
  show ?thesis
    unfolding getTerrainInfo_def Let_def x_def [symmetric] y_def [symmetric] height dx dy
    by simp
qed

section \<open>The height field: results about \<^verbatim>\<open>getTerrainInfo\<close>\<close>

lemma E_nonneg_index:
  assumes "0 \<le> i" "0 \<le> j"
  shows "E A i j = (if i = 0 \<and> j = 0 then 0 else A / sqrt ((of_int i)\<^sup>2 + (of_int j)\<^sup>2))"
proof -
  from assms have "i + j = 0 \<longleftrightarrow> i = 0 \<and> j = 0" by linarith
  then show ?thesis by (simp add: E_def)
qed

lemma getTerrainInfo_sample:
  "getTerrainInfo (1 / 2) [0, pi / 2, 0] 1 1 1 = Inr (1 / (2 * sqrt 2), vec3 (1 / 2) 1 (1 / 2))"
  by (simp add: getTerrainInfo_def coeff_at_def E_def Let_def upt_rec)

lemma vec3_length_y_one:
  "1 \<le> vec3_length (vec3 a 1 b)" "vec3_length (vec3 a 1 b) = 1 \<longleftrightarrow> a = 0 \<and> b = 0"
proof -
  have "1 \<le> a\<^sup>2 + 1 + b\<^sup>2" by simp
  then have "sqrt 1 \<le> sqrt (a\<^sup>2 + 1 + b\<^sup>2)" by (rule real_sqrt_le_mono)
  then show "1 \<le> vec3_length (vec3 a 1 b)" by (simp add: vec3_length_def)
  have "a\<^sup>2 + b\<^sup>2 = 0 \<longleftrightarrow> a = 0 \<and> b = 0" by (rule sum_power2_eq_zero_iff)
  moreover have "vec3_length (vec3 a 1 b) = 1 \<longleftrightarrow> a\<^sup>2 + b\<^sup>2 = 0"
    by (simp add: vec3_length_def)
  ultimately show "vec3_length (vec3 a 1 b) = 1 \<longleftrightarrow> a = 0 \<and> b = 0" by simp
qed

lemma vec3_length_normalize:
  assumes "0 < vec3_length v"
  shows "vec3_length (normalize v) = 1"
proof -
  define l where "l = vec3_length v"
  have l: "0 < l" using assms by (simp add: l_def)
  have sq: "(vec3_x v)\<^sup>2 + (vec3_y v)\<^sup>2 + (vec3_z v)\<^sup>2 = l\<^sup>2"
    by (simp add: l_def vec3_length_def add_nonneg_nonneg)
  have "(vec3_x v * (1 / l))\<^sup>2 + (vec3_y v * (1 / l))\<^sup>2 + (vec3_z v * (1 / l))\<^sup>2
        = ((vec3_x v)\<^sup>2 + (vec3_y v)\<^sup>2 + (vec3_z v)\<^sup>2) / l\<^sup>2"
    by (simp add: power_mult_distrib power_divide add_divide_distrib)
  also have "\<dots> = 1" using l by (simp add: sq)
  finally have unit: "(vec3_x v * (1 / l))\<^sup>2 + (vec3_y v * (1 / l))\<^sup>2
      + (vec3_z v * (1 / l))\<^sup>2 = 1" .
  have "vec3_length (normalize v) = sqrt ((vec3_x v * (1 / l))\<^sup>2
      + (vec3_y v * (1 / l))\<^sup>2 + (vec3_z v * (1 / l))\<^sup>2)"
    unfolding normalize_def vec3_times_def l_def [symmetric]
    by (simp add: vec3_length_def)
  then show ?thesis
    by (simp only: unit real_sqrt_one)
qed

lemma getTerrainInfo_result:
  assumes "getTerrainInfo A coeffs x y n = Inr (height, nrm)"
  shows "\<exists>a b. nrm = vec3 a 1 b"
  using assms unfolding getTerrainInfo_sums by (auto split: if_splits)

text \<open>
  Claim C1. When the phase table covers every index that is read, \<^verbatim>\<open>getTerrainInfo\<close> maps
  \<open>x\<close> to \<open>x \<cdot> \<pi> - \<pi>\<close> and \<open>y\<close> to \<open>y \<cdot> \<pi> - \<pi>\<close> and returns as height the double sum
  over \<open>i, j = 0, \<dots>, n\<close> of \<open>E A i j \<cdot> cos (i \<cdot> x' + j \<cdot> y' + coeffs[i \<cdot> n + j])\<close>. For the
  indices of the sum, which are not negative, the test \<^verbatim>\<open>one + two == 0\<close> of \<^verbatim>\<open>E\<close> holds
  exactly when \<open>i = j = 0\<close>, so the weight is 0 there and \<open>A / sqrt (i\<^sup>2 + j\<^sup>2)\<close> elsewhere;
  \<open>E 2 3 4 = 0.4\<close> and \<open>E 2 1 0 = 2\<close>.
\<close>

theorem getTerrainInfo_height:
  assumes "\<forall>i\<in>{0..n}. \<forall>j\<in>{0..n}. nat (i * n + j) < length coeffs"
  shows "(\<exists>nrm. getTerrainInfo A coeffs x y n =
            Inr (\<Sum>i = 0..n. \<Sum>j = 0..n.
                   E A i j * cos (of_int i * (x * pi - pi) + of_int j * (y * pi - pi)
                                  + coeffs ! nat (i * n + j)), nrm))
       \<and> (\<forall>i\<in>{0..n}. \<forall>j\<in>{0..n}.
             E A i j = (if i = 0 \<and> j = 0 then 0
                        else A / sqrt ((of_int i)\<^sup>2 + (of_int j)\<^sup>2)))
       \<and> E 2 3 4 = 0.4 \<and> E 2 1 0 = 2"
proof (intro conjI)
  show "\<exists>nrm. getTerrainInfo A coeffs x y n =
            Inr (\<Sum>i = 0..n. \<Sum>j = 0..n.
                   E A i j * cos (of_int i * (x * pi - pi) + of_int j * (y * pi - pi)
                                  + coeffs ! nat (i * n + j)), nrm)"
    unfolding getTerrainInfo_sums if_P [OF assms] by blast
  show "\<forall>i\<in>{0..n}. \<forall>j\<in>{0..n}.
             E A i j = (if i = 0 \<and> j = 0 then 0
                        else A / sqrt ((of_int i)\<^sup>2 + (of_int j)\<^sup>2))"
    by (intro ballI E_nonneg_index) simp_all
  show "E 2 3 4 = 0.4" by (simp add: E_def)
  show "E 2 1 0 = 2" by (simp add: E_def)
qed

theorem getTerrainInfo_height_witness:
  "(\<exists>nrm. getTerrainInfo (1 / 2) [0, pi / 2, 0] 1 1 1 =
            Inr (\<Sum>i = 0..1. \<Sum>j = 0..1.
                   E (1 / 2) i j * cos (of_int i * (1 * pi - pi) + of_int j * (1 * pi - pi)
                                  + [0, pi / 2, 0] ! nat (i * 1 + j)), nrm))
       \<and> E (1 / 2) 1 1 = (1 / 2) / sqrt ((of_int 1)\<^sup>2 + (of_int 1)\<^sup>2)
       \<and> E 2 3 4 = 0.4 \<and> E 2 1 0 = 2"
proof -
  have "\<forall>i\<in>{0..1::int}. \<forall>j\<in>{0..1::int}. nat (i * 1 + j) < length [0, pi / 2, 0 :: real]"
    by (subst largest_read) simp
  note r = getTerrainInfo_height [OF this, of "1 / 2" 1 1]
  have "(1::int) \<in> {0..1}" by simp
  with r [THEN conjunct2, THEN conjunct1]
  have "E (1 / 2) 1 1 = (if (1::int) = 0 \<and> (1::int) = 0 then 0
                         else (1 / 2) / sqrt ((of_int 1)\<^sup>2 + (of_int 1)\<^sup>2))"
    by blast
  then have "E (1 / 2) 1 1 = (1 / 2) / sqrt ((of_int 1)\<^sup>2 + (of_int 1)\<^sup>2)"
    by simp
  with r show ?thesis by blast
qed

text \<open>
  Claim C2, as the code has it. \<^verbatim>\<open>getTerrainInfo\<close> returns the vector \<open>(- dx, 1, - dy)\<close>
  itself, where \<open>dx\<close> and \<open>dy\<close> are the double sums with the factors \<open>- i \<cdot> sin\<close> and
  \<open>- j \<cdot> sin\<close>, each weighted by \<open>E A i j\<close>. The vector is not normalised (the fragment
  shader normalises the interpolated normal, line 247): its length is 1 only when both
  sums are 0.
\<close>

theorem getTerrainInfo_normal:
  assumes "\<forall>i\<in>{0..n}. \<forall>j\<in>{0..n}. nat (i * n + j) < length coeffs"
  shows "\<exists>height nrm.
           getTerrainInfo A coeffs x y n = Inr (height, nrm)
         \<and> nrm = vec3 (- (\<Sum>i = 0..n. \<Sum>j = 0..n.
                          E A i j * (- 1 * sin (of_int i * (x * pi - pi)
                                       + of_int j * (y * pi - pi) + coeffs ! nat (i * n + j))
                                     * of_int i)))
                     1
                     (- (\<Sum>i = 0..n. \<Sum>j = 0..n.
                          E A i j * (- 1 * sin (of_int i * (x * pi - pi)
                                       + of_int j * (y * pi - pi) + coeffs ! nat (i * n + j))
                                     * of_int j)))
         \<and> (vec3_length nrm = 1 \<longleftrightarrow> vec3_x nrm = 0 \<and> vec3_z nrm = 0)"
  unfolding getTerrainInfo_sums if_P [OF assms]
  by (simp add: vec3_length_y_one del: mult_minus1)

theorem getTerrainInfo_normal_witness:
  "\<exists>height nrm.
           getTerrainInfo (1 / 2) [0, pi / 2, 0] 1 1 1 = Inr (height, nrm)
         \<and> nrm = vec3 (- (\<Sum>i = 0..1. \<Sum>j = 0..1.
                          E (1 / 2) i j * (- 1 * sin (of_int i * (1 * pi - pi)
                                       + of_int j * (1 * pi - pi) + [0, pi / 2, 0] ! nat (i * 1 + j))
                                     * of_int i)))
                     1
                     (- (\<Sum>i = 0..1. \<Sum>j = 0..1.
                          E (1 / 2) i j * (- 1 * sin (of_int i * (1 * pi - pi)
                                       + of_int j * (1 * pi - pi) + [0, pi / 2, 0] ! nat (i * 1 + j))
                                     * of_int j)))
         \<and> (vec3_length nrm = 1 \<longleftrightarrow> vec3_x nrm = 0 \<and> vec3_z nrm = 0)"
proof -
  have "\<forall>i\<in>{0..1::int}. \<forall>j\<in>{0..1::int}. nat (i * 1 + j) < length [0, pi / 2, 0 :: real]"
    by (subst largest_read) simp
  then show ?thesis
    by (rule getTerrainInfo_normal)
qed

text \<open>
  Claim C2 as stated fails: for \<open>A = 1/2\<close>, the phase table \<open>[0, \<pi>/2, 0]\<close>, the point
  \<open>(1, 1)\<close> and \<open>n = 1\<close> the returned normal is \<open>(1/2, 1, 1/2)\<close>, whose length is not 1 and
  which differs from its normalisation.
\<close>

theorem getTerrainInfo_normal_counterexample:
  "getTerrainInfo (1 / 2) [0, pi / 2, 0] 1 1 1 = Inr (1 / (2 * sqrt 2), vec3 (1 / 2) 1 (1 / 2))
   \<and> vec3_length (vec3 (1 / 2) 1 (1 / 2)) \<noteq> 1
   \<and> vec3 (1 / 2) 1 (1 / 2) \<noteq> normalize (vec3 (1 / 2) 1 (1 / 2))"
proof -
  have len: "vec3_length (vec3 (1 / 2) 1 (1 / 2)) \<noteq> 1"
    by (simp add: vec3_length_y_one)
  have "vec3_length (normalize (vec3 (1 / 2) 1 (1 / 2))) = 1"
    using vec3_length_y_one(1) [of "1 / 2" "1 / 2"] by (intro vec3_length_normalize) simp
  with len have "vec3 (1 / 2) 1 (1 / 2) \<noteq> normalize (vec3 (1 / 2) 1 (1 / 2))"
    by metis
  with len getTerrainInfo_sample show ?thesis by simp
qed

text \<open>
  Claim C5, as the code has it. For \<open>n \<ge> 1\<close> the indices \<open>i \<cdot> n + j\<close> that are read lie
  between 0 and \<open>n \<cdot> n + n\<close>, and \<^verbatim>\<open>getTerrainInfo\<close> returns without a read out of range
  exactly when the table has more than \<open>n \<cdot> n + n\<close> entries, that is at least
  \<open>n\<^sup>2 + n + 1\<close>. (The table of \<^verbatim>\<open>onInitialization\<close> has 1000000 entries, and \<open>n = 35\<close>
  reads up to index 1260.)
\<close>

theorem phase_reads_in_bounds:
  assumes "1 \<le> n"
  shows "(\<forall>i\<in>{0..n}. \<forall>j\<in>{0..n}. 0 \<le> i * n + j \<and> i * n + j \<le> n * n + n)
       \<and> ((\<exists>r. getTerrainInfo A coeffs x y n = Inr r) \<longleftrightarrow> n * n + n < int (length coeffs))"
proof
  show "\<forall>i\<in>{0..n}. \<forall>j\<in>{0..n}. 0 \<le> i * n + j \<and> i * n + j \<le> n * n + n"
  proof (intro ballI conjI)
    fix i j assume ij: "i \<in> {0..n}" "j \<in> {0..n}"
    with assms show "0 \<le> i * n + j" by simp
    from ij assms have "i * n \<le> n * n" by (simp add: mult_right_mono)
    with ij show "i * n + j \<le> n * n + n" by simp
  qed
  show "(\<exists>r. getTerrainInfo A coeffs x y n = Inr r) \<longleftrightarrow> n * n + n < int (length coeffs)"
    using assms unfolding getTerrainInfo_sums largest_read by auto
qed

theorem phase_reads_in_bounds_witness:
  "(0::int) \<le> 1 * 1 + 1 \<and> (1::int) * 1 + 1 \<le> 1 * 1 + 1
   \<and> (\<exists>r. getTerrainInfo (1 / 2) [0, pi / 2, 0] 1 1 1 = Inr r)"
proof -
  have n: "(1::int) \<le> 1" by simp
  have len: "(1::int) * 1 + 1 < int (length [0, pi / 2, 0 :: real])" by simp
  note main = phase_reads_in_bounds [OF n, of "1 / 2" "[0, pi / 2, 0]" 1 1]
  have "(1::int) \<in> {0..1}" by simp
  with main [THEN conjunct1]
  have "(0::int) \<le> 1 * 1 + 1 \<and> (1::int) * 1 + 1 \<le> 1 * 1 + 1"
    by blast
  moreover from main [THEN conjunct2] len
  have "\<exists>r. getTerrainInfo (1 / 2) [0, pi / 2, 0] 1 1 1 = Inr r"
    by (rule iffD2)
  ultimately show ?thesis by simp
qed

text \<open>
  Claim C5 as stated fails: a table of \<open>n\<^sup>2\<close> entries is too short. With \<open>n = 1\<close> and one
  entry the reads at \<open>(0, 1)\<close>, \<open>(1, 0)\<close> and \<open>(1, 1)\<close> are out of range, and with \<open>n = 35\<close>
  and 1225 entries the read at \<open>(35, 0)\<close> has index 1225.
\<close>

theorem phase_reads_counterexample:
  "int (length [0 :: real]) = 1 * 1
   \<and> getTerrainInfo (1 / 2) [0] (1 / 2) (1 / 2) 1 = Inl OutOfRange
   \<and> int (length (replicate 1225 (0 :: real))) = 35 * 35
   \<and> getTerrainInfo (1 / 2) (replicate 1225 0) (1 / 2) (1 / 2) 35 = Inl OutOfRange"
proof -
  have "getTerrainInfo (1 / 2) [0] (1 / 2) (1 / 2) 1 = Inl OutOfRange"
    by (simp add: getTerrainInfo_def coeff_at_def E_def Let_def upt_rec)
  moreover have "getTerrainInfo (1 / 2) (replicate 1225 0) (1 / 2) (1 / 2) 35 = Inl OutOfRange"
    unfolding getTerrainInfo_sums largest_read by simp
  ultimately show ?thesis by simp
qed

text \<open>
  Claim C10. Whenever \<^verbatim>\<open>getTerrainInfo\<close> returns, the second component of the normal is
  exactly 1; so the normal is not the zero vector, its length is at least 1, and
  normalising it gives a vector of length 1.
\<close>

theorem getTerrainInfo_normal_y:
  assumes "getTerrainInfo A coeffs x y n = Inr (height, nrm)"
  shows "vec3_y nrm = 1 \<and> nrm \<noteq> vec3 0 0 0 \<and> 1 \<le> vec3_length nrm
         \<and> vec3_length (normalize nrm) = 1"
proof -
  from assms obtain a b where nrm: "nrm = vec3 a 1 b"
    using getTerrainInfo_result by blast
  have len: "1 \<le> vec3_length nrm"
    unfolding nrm by (rule vec3_length_y_one)
  then have "0 < vec3_length nrm" by simp
  then have "vec3_length (normalize nrm) = 1" by (rule vec3_length_normalize)
  with len show ?thesis by (simp add: nrm)
qed

theorem getTerrainInfo_normal_y_witness:
  "getTerrainInfo (1 / 2) [0, pi / 2, 0] 1 1 1 = Inr (1 / (2 * sqrt 2), vec3 (1 / 2) 1 (1 / 2))
   \<and> vec3_y (vec3 (1 / 2) 1 (1 / 2)) = 1 \<and> vec3 (1 / 2) 1 (1 / 2) \<noteq> vec3 0 0 0
   \<and> 1 \<le> vec3_length (vec3 (1 / 2) 1 (1 / 2))
   \<and> vec3_length (normalize (vec3 (1 / 2) 1 (1 / 2))) = 1"
  using getTerrainInfo_sample getTerrainInfo_normal_y [OF getTerrainInfo_sample] by (rule conjI)

section \<open>Dual numbers: the rules of differentiation\<close>

lemma Dnum_divide_rule:
  fixes d e :: "'a::real_vector"
  assumes "g \<noteq> 0"
  shows "Dnum_divide (Dnum f d) (Dnum g e) = Dnum (f / g) ((g *\<^sub>R d - f *\<^sub>R e) /\<^sub>R g\<^sup>2)"
  by (simp add: Dnum_divide_def power2_eq_square)

lemma Sin_Cos_derivative:
  "((\<lambda>t. sin (cos t)) has_real_derivative Dnum_d (Sin (Cos (Dnum x (1::real))))) (at x)"
  by (auto simp: Sin_def Cos_def intro!: derivative_eq_intros)

text \<open>
  \<^verbatim>\<open>powf\<close> with an exponent that is a natural number is the power, for every base; so
  \<^verbatim>\<open>powf(\<cdot>, 2)\<close> is the square that \<open>E\<close> uses.
\<close>

lemma powf_positive: "0 < x \<Longrightarrow> powf x y = x powr y"
  by (simp add: powf_def)

lemma powf_of_nat: "powf x (real k) = x ^ k"
proof -
  consider "0 < x" | "x = 0" | "x < 0" by linarith
  then show ?thesis
  proof cases
    case 1
    then show ?thesis by (simp add: powf_def powr_realpow)
  next
    case 2
    then show ?thesis by (cases k) (simp_all add: powf_def)
  next
    case 3
    then show ?thesis by (simp add: powf_def)
  qed
qed

lemma powf_square: "powf x 2 = x\<^sup>2"
  using powf_of_nat [of x 2] by simp

lemma Pow_Dnum_positive:
  fixes e :: "'a::real_vector"
  assumes "0 < g"
  shows "Pow_Dnum (Dnum g e) n = Dnum (g powr n) ((n * g powr (n - 1)) *\<^sub>R e)"
  using assms by (simp add: Pow_Dnum_def powf_positive)

lemma Pow_Dnum_of_nat:
  fixes e :: "'a::real_vector"
  shows "Pow_Dnum (Dnum g e) (real (Suc k)) = Dnum (g ^ Suc k) ((real (Suc k) * g ^ k) *\<^sub>R e)"
proof -
  have "real (Suc k) - 1 = real k" by simp
  then have "powf g (real (Suc k) - 1) = g ^ k"
    by (simp only: powf_of_nat)
  moreover have "powf g (real (Suc k)) = g ^ Suc k"
    by (rule powf_of_nat)
  ultimately show ?thesis
    by (simp only: Pow_Dnum_def Dnum.sel)
qed

text \<open>
  The derivative component is the derivative: when \<open>u\<close> and \<open>v\<close> have the derivatives
  \<open>u'\<close> and \<open>v'\<close> at \<open>x\<close>, every operation on the dual numbers \<open>(u x, u')\<close> and
  \<open>(v x, v')\<close> yields the derivative of the function it computes.
\<close>

lemma Dnum_lift_sound:
  fixes u v :: "real \<Rightarrow> real"
  assumes u: "(u has_real_derivative u') (at x)" and v: "(v has_real_derivative v') (at x)"
  shows "((\<lambda>t. u t * v t) has_real_derivative
            Dnum_d (Dnum_times (Dnum (u x) u') (Dnum (v x) v'))) (at x)"
    and "v x \<noteq> 0 \<Longrightarrow> ((\<lambda>t. u t / v t) has_real_derivative
            Dnum_d (Dnum_divide (Dnum (u x) u') (Dnum (v x) v'))) (at x)"
    and "((\<lambda>t. exp (u t)) has_real_derivative Dnum_d (Exp (Dnum (u x) u'))) (at x)"
    and "((\<lambda>t. sin (u t)) has_real_derivative Dnum_d (Sin (Dnum (u x) u'))) (at x)"
    and "((\<lambda>t. cos (u t)) has_real_derivative Dnum_d (Cos (Dnum (u x) u'))) (at x)"
    and "cos (u x) \<noteq> 0 \<Longrightarrow>
           ((\<lambda>t. sin (u t) / cos (u t)) has_real_derivative Dnum_d (Tan (Dnum (u x) u'))) (at x)"
    and "((\<lambda>t. sinh (u t)) has_real_derivative Dnum_d (Sinh (Dnum (u x) u'))) (at x)"
    and "((\<lambda>t. cosh (u t)) has_real_derivative Dnum_d (Cosh (Dnum (u x) u'))) (at x)"
    and "((\<lambda>t. sinh (u t) / cosh (u t)) has_real_derivative Dnum_d (Tanh (Dnum (u x) u'))) (at x)"
    and "0 < u x \<Longrightarrow> ((\<lambda>t. ln (u t)) has_real_derivative Dnum_d (Log (Dnum (u x) u'))) (at x)"
proof -
  show "((\<lambda>t. u t * v t) has_real_derivative
            Dnum_d (Dnum_times (Dnum (u x) u') (Dnum (v x) v'))) (at x)"
    using u v by (auto simp: Dnum_times_def intro!: derivative_eq_intros)
  show "((\<lambda>t. u t / v t) has_real_derivative
            Dnum_d (Dnum_divide (Dnum (u x) u') (Dnum (v x) v'))) (at x)" if "v x \<noteq> 0"
    using u v that
    by (auto simp: Dnum_divide_def field_simps intro!: derivative_eq_intros)
  show "((\<lambda>t. exp (u t)) has_real_derivative Dnum_d (Exp (Dnum (u x) u'))) (at x)"
    using u by (auto simp: Exp_def intro!: derivative_eq_intros)
  show "((\<lambda>t. sin (u t)) has_real_derivative Dnum_d (Sin (Dnum (u x) u'))) (at x)"
    using u by (auto simp: Sin_def intro!: derivative_eq_intros)
  show "((\<lambda>t. cos (u t)) has_real_derivative Dnum_d (Cos (Dnum (u x) u'))) (at x)"
    using u by (auto simp: Cos_def intro!: derivative_eq_intros)
  show "((\<lambda>t. sin (u t) / cos (u t)) has_real_derivative Dnum_d (Tan (Dnum (u x) u'))) (at x)"
    if "cos (u x) \<noteq> 0"
    using u that
    by (auto simp: Tan_def Sin_def Cos_def Dnum_divide_def field_simps
        intro!: derivative_eq_intros)
  show "((\<lambda>t. sinh (u t)) has_real_derivative Dnum_d (Sinh (Dnum (u x) u'))) (at x)"
    using u by (auto simp: Sinh_def intro!: derivative_eq_intros)
  show "((\<lambda>t. cosh (u t)) has_real_derivative Dnum_d (Cosh (Dnum (u x) u'))) (at x)"
    using u by (auto simp: Cosh_def intro!: derivative_eq_intros)
  have "cosh (u x) \<noteq> 0" by simp
  then show "((\<lambda>t. sinh (u t) / cosh (u t)) has_real_derivative
      Dnum_d (Tanh (Dnum (u x) u'))) (at x)"
    using u
    by (auto simp: Tanh_def Sinh_def Cosh_def Dnum_divide_def field_simps
        intro!: derivative_eq_intros)
  show "((\<lambda>t. ln (u t)) has_real_derivative Dnum_d (Log (Dnum (u x) u'))) (at x)" if "0 < u x"
    using u that by (auto simp: Log_def field_simps intro!: derivative_eq_intros)
qed

lemma Pow_Dnum_sound:
  fixes u :: "real \<Rightarrow> real"
  assumes u: "(u has_real_derivative u') (at x)"
  shows "0 < u x \<Longrightarrow>
           ((\<lambda>t. u t powr n) has_real_derivative Dnum_d (Pow_Dnum (Dnum (u x) u') n)) (at x)"
    and "((\<lambda>t. u t ^ Suc k) has_real_derivative
           Dnum_d (Pow_Dnum (Dnum (u x) u') (real (Suc k)))) (at x)"
proof -
  show "((\<lambda>t. u t powr n) has_real_derivative Dnum_d (Pow_Dnum (Dnum (u x) u') n)) (at x)"
    if "0 < u x"
    using u that
    by (auto simp: Pow_Dnum_positive field_simps intro!: derivative_eq_intros)
  show "((\<lambda>t. u t ^ Suc k) has_real_derivative
           Dnum_d (Pow_Dnum (Dnum (u x) u') (real (Suc k)))) (at x)"
  proof -
    have "((\<lambda>t. u t ^ Suc k) has_real_derivative
        of_nat (Suc k) * (u' * u x ^ (Suc k - Suc 0))) (at x)"
      using u by (rule DERIV_power)
    moreover have "Dnum_d (Pow_Dnum (Dnum (u x) u') (real (Suc k)))
        = of_nat (Suc k) * (u' * u x ^ (Suc k - Suc 0))"
      unfolding Pow_Dnum_of_nat by (simp add: mult.commute)
    ultimately show ?thesis by (simp only:)
  qed
qed

text \<open>
  With the seeds \<open>(1, 0)\<close> and \<open>(0, 1)\<close> of the two parameters, which the commented-out
  line 318 of \<^verbatim>\<open>GenVertexData\<close> gives to \<^verbatim>\<open>U\<close> and \<^verbatim>\<open>V\<close>, the derivative of a product is
  its gradient.
\<close>

lemma Dnum2_product_gradient:
  "Dnum_times (Dnum u (vec2 1 0)) (Dnum v (vec2 0 1)) = (Dnum (u * v) (vec2 v u) :: Dnum2)"
  by (simp add: Dnum_times_def plus_vec2_def scaleR_vec2_def)

lemma Dnum_rules_real:
  fixes a b p q :: real
  shows "Dnum_times (Dnum a b) (Dnum p q) = Dnum (a * p) (a * q + b * p)"
    and "p \<noteq> 0 \<Longrightarrow> Dnum_divide (Dnum a b) (Dnum p q) = Dnum (a / p) ((p * b - q * a) / p\<^sup>2)"
    and "Sin (Dnum p q) = Dnum (sin p) (cos p * q)"
    and "Dnum_d (Sin (Cos (Dnum x (1::real)))) = - cos (cos x) * sin x"
proof -
  show "Dnum_times (Dnum a b) (Dnum p q) = Dnum (a * p) (a * q + b * p)"
    by (simp add: Dnum_times_def mult.commute)
  show "Dnum_divide (Dnum a b) (Dnum p q) = Dnum (a / p) ((p * b - q * a) / p\<^sup>2)" if "p \<noteq> 0"
    using that by (simp add: Dnum_divide_rule divide_inverse mult.commute)
  show "Sin (Dnum p q) = Dnum (sin p) (cos p * q)"
    by (simp add: Sin_def)
  show "Dnum_d (Sin (Cos (Dnum x (1::real)))) = - cos (cos x) * sin x"
    by (simp add: Sin_def Cos_def)
qed

lemma Dnum_rules_elementary:
  fixes e :: "'a::real_vector"
  shows "Exp (Dnum g e) = Dnum (exp g) (exp g *\<^sub>R e)
       \<and> Sin (Dnum g e) = Dnum (sin g) (cos g *\<^sub>R e)
       \<and> Cos (Dnum g e) = Dnum (cos g) ((- sin g) *\<^sub>R e)
       \<and> Sinh (Dnum g e) = Dnum (sinh g) (cosh g *\<^sub>R e)
       \<and> Cosh (Dnum g e) = Dnum (cosh g) (sinh g *\<^sub>R e)
       \<and> Tan (Dnum g e) = Dnum_divide (Sin (Dnum g e)) (Cos (Dnum g e))
       \<and> Tanh (Dnum g e) = Dnum_divide (Sinh (Dnum g e)) (Cosh (Dnum g e))"
  by (simp add: Exp_def Sin_def Cos_def Sinh_def Cosh_def Tan_def Tanh_def)

text \<open>
  Claim C7. Sums and differences of dual numbers are componentwise; a product is
  \<open>(f \<cdot> g, f \<cdot> e + d \<cdot> g)\<close> and a quotient with \<open>g \<noteq> 0\<close> is \<open>(f / g, (g \<cdot> d - e \<cdot> f) / g\<^sup>2)\<close>,
  for every type of derivative and in particular for a real one; every elementary
  function multiplies the derivative of the outer function at the inner value with the
  inner derivative, as \<open>Sin\<close> does with \<open>(sin g, cos g \<cdot> e)\<close>, where \<open>Log\<close> is taken at a
  positive value and \<open>Pow\<close> at a positive value or with an exponent \<open>1, 2, 3, \<dots>\<close>; and the
  derivative component of \<open>Sin (Cos x)\<close> with the seed 1 is \<open>- cos (cos x) \<cdot> sin x\<close>, which
  is the derivative of \<open>sin (cos x)\<close>.
\<close>

theorem Dnum_rules:
  fixes d e :: "'a::real_vector" and a b p q x :: real
  shows "Dnum_plus (Dnum f d) (Dnum g e) = Dnum (f + g) (d + e)
       \<and> Dnum_minus (Dnum f d) (Dnum g e) = Dnum (f - g) (d - e)
       \<and> Dnum_times (Dnum f d) (Dnum g e) = Dnum (f * g) (f *\<^sub>R e + g *\<^sub>R d)
       \<and> (g \<noteq> 0 \<longrightarrow>
            Dnum_divide (Dnum f d) (Dnum g e) = Dnum (f / g) ((g *\<^sub>R d - f *\<^sub>R e) /\<^sub>R g\<^sup>2))
       \<and> Dnum_times (Dnum a b) (Dnum p q) = Dnum (a * p) (a * q + b * p)
       \<and> (p \<noteq> 0 \<longrightarrow> Dnum_divide (Dnum a b) (Dnum p q) = Dnum (a / p) ((p * b - q * a) / p\<^sup>2))
       \<and> (Exp (Dnum g e) = Dnum (exp g) (exp g *\<^sub>R e)
         \<and> Sin (Dnum g e) = Dnum (sin g) (cos g *\<^sub>R e)
         \<and> Cos (Dnum g e) = Dnum (cos g) ((- sin g) *\<^sub>R e)
         \<and> Sinh (Dnum g e) = Dnum (sinh g) (cosh g *\<^sub>R e)
         \<and> Cosh (Dnum g e) = Dnum (cosh g) (sinh g *\<^sub>R e)
         \<and> Tan (Dnum g e) = Dnum_divide (Sin (Dnum g e)) (Cos (Dnum g e))
         \<and> Tanh (Dnum g e) = Dnum_divide (Sinh (Dnum g e)) (Cosh (Dnum g e)))
       \<and> (0 < g \<longrightarrow> Log (Dnum g e) = Dnum (ln g) (e /\<^sub>R g))
       \<and> (0 < g \<longrightarrow>
            Pow_Dnum (Dnum g e) n = Dnum (g powr n) ((n * g powr (n - 1)) *\<^sub>R e))
       \<and> Pow_Dnum (Dnum g e) (real (Suc k)) = Dnum (g ^ Suc k) ((real (Suc k) * g ^ k) *\<^sub>R e)
       \<and> Sin (Dnum p q) = Dnum (sin p) (cos p * q)
       \<and> Dnum_d (Sin (Cos (Dnum x (1::real)))) = - cos (cos x) * sin x
       \<and> ((\<lambda>t. sin (cos t)) has_real_derivative Dnum_d (Sin (Cos (Dnum x (1::real))))) (at x)"
proof (intro conjI impI)
  show "Dnum_plus (Dnum f d) (Dnum g e) = Dnum (f + g) (d + e)"
    by (simp add: Dnum_plus_def)
  show "Dnum_minus (Dnum f d) (Dnum g e) = Dnum (f - g) (d - e)"
    by (simp add: Dnum_minus_def)
  show "Dnum_times (Dnum f d) (Dnum g e) = Dnum (f * g) (f *\<^sub>R e + g *\<^sub>R d)"
    by (simp add: Dnum_times_def)
  show "Dnum_divide (Dnum f d) (Dnum g e) = Dnum (f / g) ((g *\<^sub>R d - f *\<^sub>R e) /\<^sub>R g\<^sup>2)"
    if "g \<noteq> 0" using that by (rule Dnum_divide_rule)
  show "Dnum_times (Dnum a b) (Dnum p q) = Dnum (a * p) (a * q + b * p)"
    by (rule Dnum_rules_real)
  show "Dnum_divide (Dnum a b) (Dnum p q) = Dnum (a / p) ((p * b - q * a) / p\<^sup>2)"
    if "p \<noteq> 0" using that by (rule Dnum_rules_real)
  show "Log (Dnum g e) = Dnum (ln g) (e /\<^sub>R g)" if "0 < g"
    by (simp add: Log_def)
  show "Pow_Dnum (Dnum g e) n = Dnum (g powr n) ((n * g powr (n - 1)) *\<^sub>R e)" if "0 < g"
    using that by (rule Pow_Dnum_positive)
  show "Pow_Dnum (Dnum g e) (real (Suc k)) = Dnum (g ^ Suc k) ((real (Suc k) * g ^ k) *\<^sub>R e)"
    by (rule Pow_Dnum_of_nat)
  show "Sin (Dnum p q) = Dnum (sin p) (cos p * q)"
    by (rule Dnum_rules_real)
  show "Dnum_d (Sin (Cos (Dnum x (1::real)))) = - cos (cos x) * sin x"
    by (rule Dnum_rules_real)
  show "((\<lambda>t. sin (cos t)) has_real_derivative Dnum_d (Sin (Cos (Dnum x (1::real))))) (at x)"
    by (rule Sin_Cos_derivative)
qed (simp_all add: Dnum_rules_elementary)

theorem Dnum_rules_witness:
  "(3::real) \<noteq> 0 \<and> (0::real) < 3
   \<and> Dnum_divide (Dnum 1 (2::real)) (Dnum 3 4) = Dnum (1 / 3) ((3 *\<^sub>R 2 - 1 *\<^sub>R 4) /\<^sub>R 3\<^sup>2)
   \<and> Dnum_divide (Dnum 1 (2::real)) (Dnum 3 4) = Dnum (1 / 3) ((3 * 2 - 4 * 1) / 3\<^sup>2)
   \<and> Log (Dnum 3 (4::real)) = Dnum (ln 3) (4 /\<^sub>R 3)
   \<and> Pow_Dnum (Dnum 3 (4::real)) 2 = Dnum (3 powr 2) ((2 * 3 powr (2 - 1)) *\<^sub>R 4)
   \<and> Pow_Dnum (Dnum (- 2) (1::real)) 2 = Dnum 4 (- 4)
   \<and> Pow_Dnum (Dnum 0 (1::real)) 1 = Dnum 0 1"
proof -
  have nz: "(3::real) \<noteq> 0" and pos: "(0::real) < 3" by simp_all
  note r = Dnum_rules [where f = 1 and d = "2::real" and g = 3 and e = 4
      and a = 1 and b = 2 and p = 3 and q = 4 and n = 2 and k = 1 and x = 0]
  from r [THEN conjunct2, THEN conjunct2, THEN conjunct2, THEN conjunct1] nz
  have 1: "Dnum_divide (Dnum 1 (2::real)) (Dnum 3 4)
      = Dnum (1 / 3) ((3 *\<^sub>R 2 - 1 *\<^sub>R 4) /\<^sub>R 3\<^sup>2)"
    by (rule mp)
  from r [THEN conjunct2, THEN conjunct2, THEN conjunct2, THEN conjunct2, THEN conjunct2, THEN conjunct1] nz
  have 2: "Dnum_divide (Dnum 1 (2::real)) (Dnum 3 4) = Dnum (1 / 3) ((3 * 2 - 4 * 1) / 3\<^sup>2)"
    by (rule mp)
  from r [THEN conjunct2, THEN conjunct2, THEN conjunct2, THEN conjunct2, THEN conjunct2, THEN conjunct2, THEN conjunct2, THEN conjunct1] pos
  have 3: "Log (Dnum 3 (4::real)) = Dnum (ln 3) (4 /\<^sub>R 3)"
    by (rule mp)
  from r [THEN conjunct2, THEN conjunct2, THEN conjunct2, THEN conjunct2, THEN conjunct2, THEN conjunct2, THEN conjunct2, THEN conjunct2, THEN conjunct1] pos
  have 4: "Pow_Dnum (Dnum 3 (4::real)) 2 = Dnum (3 powr 2) ((2 * 3 powr (2 - 1)) *\<^sub>R 4)"
    by (rule mp)
  note negative = Dnum_rules [where f = 1 and d = "2::real" and g = "- 2" and e = 1
      and a = 1 and b = 2 and p = 3 and q = 4 and n = 2 and k = 1 and x = 0]
  from negative [THEN conjunct2, THEN conjunct2, THEN conjunct2, THEN conjunct2, THEN conjunct2, THEN conjunct2, THEN conjunct2, THEN conjunct2, THEN conjunct2, THEN conjunct1]
  have 5: "Pow_Dnum (Dnum (- 2) (1::real)) 2 = Dnum 4 (- 4)"
    by simp
  note zero = Dnum_rules [where f = 1 and d = "2::real" and g = 0 and e = 1
      and a = 1 and b = 2 and p = 3 and q = 4 and n = 2 and k = 0 and x = 0]
  from zero [THEN conjunct2, THEN conjunct2, THEN conjunct2, THEN conjunct2, THEN conjunct2, THEN conjunct2, THEN conjunct2, THEN conjunct2, THEN conjunct2, THEN conjunct1]
  have 6: "Pow_Dnum (Dnum 0 (1::real)) 1 = Dnum 0 1"
    by simp
  from nz pos 1 2 3 4 5 6 show ?thesis by (intro conjI)
qed

section \<open>The light directions of the vertex shader\<close>

text \<open>
  Claim C8. For two world positions with \<open>w = 1\<close>: the direction to a light with the
  weight \<open>w = 0\<close> is the same at both, and the directions to a light with \<open>w = 1\<close> differ
  when the positions differ.
\<close>

theorem wLight_homogeneous:
  assumes "i < nLights" and "vec4_w p = 1" and "vec4_w q = 1"
  shows "(vec4_w (wLightPos (lights ! i)) = 0 \<longrightarrow>
            wLight lights nLights p ! i = wLight lights nLights q ! i)
       \<and> (vec4_w (wLightPos (lights ! i)) = 1 \<and> p \<noteq> q \<longrightarrow>
            wLight lights nLights p ! i \<noteq> wLight lights nLights q ! i)"
proof (intro conjI impI)
  assume "vec4_w (wLightPos (lights ! i)) = 0"
  with assms show "wLight lights nLights p ! i = wLight lights nLights q ! i"
    by (simp add: wLight_def vec3_minus_def vec3_times_def xyz_def)
next
  assume w: "vec4_w (wLightPos (lights ! i)) = 1 \<and> p \<noteq> q"
  with assms have "xyz p \<noteq> xyz q"
    by (cases p; cases q) (simp add: xyz_def)
  with assms w show "wLight lights nLights p ! i \<noteq> wLight lights nLights q ! i"
    by (cases p; cases q) (auto simp: wLight_def vec3_minus_def vec3_times_def xyz_def)
qed

theorem wLight_homogeneous_witness:
  "wLight [\<lparr>La = vec3 0.1 0.1 1, Le = vec3 1.2 1 0.7, wLightPos = vec4 5 5 4 0\<rparr>,
           \<lparr>La = vec3 0.1 0.1 1, Le = vec3 1.2 1 0.7, wLightPos = vec4 5 5 4 1\<rparr>] 2 (vec4 0 0 0 1) ! 0
   = wLight [\<lparr>La = vec3 0.1 0.1 1, Le = vec3 1.2 1 0.7, wLightPos = vec4 5 5 4 0\<rparr>,
           \<lparr>La = vec3 0.1 0.1 1, Le = vec3 1.2 1 0.7, wLightPos = vec4 5 5 4 1\<rparr>] 2 (vec4 1 2 3 1) ! 0
   \<and> wLight [\<lparr>La = vec3 0.1 0.1 1, Le = vec3 1.2 1 0.7, wLightPos = vec4 5 5 4 0\<rparr>,
           \<lparr>La = vec3 0.1 0.1 1, Le = vec3 1.2 1 0.7, wLightPos = vec4 5 5 4 1\<rparr>] 2 (vec4 0 0 0 1) ! 1
   \<noteq> wLight [\<lparr>La = vec3 0.1 0.1 1, Le = vec3 1.2 1 0.7, wLightPos = vec4 5 5 4 0\<rparr>,
           \<lparr>La = vec3 0.1 0.1 1, Le = vec3 1.2 1 0.7, wLightPos = vec4 5 5 4 1\<rparr>] 2 (vec4 1 2 3 1) ! 1"
proof -
  let ?lights = "[\<lparr>La = vec3 0.1 0.1 1, Le = vec3 1.2 1 0.7, wLightPos = vec4 5 5 4 0\<rparr>,
           \<lparr>La = vec3 0.1 0.1 1, Le = vec3 1.2 1 0.7, wLightPos = vec4 5 5 4 1\<rparr>]"
  have p: "vec4_w (vec4 0 0 0 1) = 1" and q: "vec4_w (vec4 1 2 3 1) = 1" by simp_all
  have i0: "(0::nat) < 2" and i1: "(1::nat) < 2" by simp_all
  have w0: "vec4_w (wLightPos (?lights ! 0)) = 0" by simp
  have w1: "vec4_w (wLightPos (?lights ! 1)) = 1 \<and> vec4 0 0 0 1 \<noteq> vec4 1 2 3 1" by simp
  from wLight_homogeneous [OF i0 p q, of ?lights, THEN conjunct1] w0
  have "wLight ?lights 2 (vec4 0 0 0 1) ! 0 = wLight ?lights 2 (vec4 1 2 3 1) ! 0"
    by (rule mp)
  moreover from wLight_homogeneous [OF i1 p q, of ?lights, THEN conjunct2] w1
  have "wLight ?lights 2 (vec4 0 0 0 1) ! 1 \<noteq> wLight ?lights 2 (vec4 1 2 3 1) ! 1"
    by (rule mp)
  ultimately show ?thesis by (rule conjI)
qed

section \<open>Animation of an object\<close>

text \<open>
  Claim C9. \<^verbatim>\<open>Object::Animate\<close> sets the rotation angle to \<open>0.8 \<cdot> tend\<close> and leaves the
  scale, the translation, the rotation axis and the four references as they are.
\<close>

theorem Animate_frame:
  "rotationAngle (Animate obj tstart tend) = 0.8 * tend
   \<and> scale (Animate obj tstart tend) = scale obj
   \<and> translation (Animate obj tstart tend) = translation obj
   \<and> rotationAxis (Animate obj tstart tend) = rotationAxis obj
   \<and> shader (Animate obj tstart tend) = shader obj
   \<and> material (Animate obj tstart tend) = material obj
   \<and> texture (Animate obj tstart tend) = texture obj
   \<and> geometry (Animate obj tstart tend) = geometry obj"
  by (simp add: Animate_def)

section \<open>Tessellation: the vertex stream of \<^verbatim>\<open>create\<close>\<close>

lemma for_each_appends:
  assumes "\<And>j s. j \<in> set js \<Longrightarrow> body j s = Inr (s @ g j)"
  shows "for_each js body s = Inr (s @ concat (map g js))"
  using assms by (induction js arbitrary: s) simp_all

lemma for_each_length:
  assumes "\<And>j s s'. body j s = Inr s' \<Longrightarrow> length s' = length s + c"
    and "for_each js body s = Inr s'"
  shows "length s' = length s + c * length js"
  using assms(2)
proof (induction js arbitrary: s)
  case Nil
  then show ?case by simp
next
  case (Cons j js)
  from Cons.prems obtain s1 where s1: "body j s = Inr s1" and rest: "for_each js body s1 = Inr s'"
    by (auto split: sum.splits)
  from assms(1) [OF s1] Cons.IH [OF rest] show ?case by simp
qed

lemma GenVertexData_eq:
  "GenVertexData A coeffs u v =
     (if 1260 < length coeffs
      then Inr \<lparr>position = vec3 (u * 15 - 7.5) (h (projr (GenVertexData A coeffs u v))) (v * 15 - 7.5),
                normal = normal (projr (GenVertexData A coeffs u v)),
                h = h (projr (GenVertexData A coeffs u v))\<rparr>
      else Inl OutOfRange)"
proof -
  have "(\<forall>i\<in>{0..35::int}. \<forall>j\<in>{0..35::int}. nat (i * 35 + j) < length coeffs)
        \<longleftrightarrow> 1260 < length coeffs"
    by (subst largest_read) auto
  then show ?thesis
    by (simp add: GenVertexData_def getTerrainInfo_sums)
qed

lemma GenVertexData_total:
  assumes "1260 < length coeffs"
  shows "GenVertexData A coeffs u v = Inr (projr (GenVertexData A coeffs u v))"
proof -
  from assms obtain r where "GenVertexData A coeffs u v = Inr r"
    using GenVertexData_eq [of A coeffs u v] by simp
  then show ?thesis by simp
qed

lemma genStrips_eq:
  assumes "1260 < length coeffs"
  shows "genStrips A coeffs N M =
     Inr (concat (map (\<lambda>i. concat (map (\<lambda>j.
            [projr (GenVertexData A coeffs (real j / of_int M) (real i / of_int N)),
             projr (GenVertexData A coeffs (real j / of_int M) (real (i + 1) / of_int N))])
          [0..<nat (M + 1)])) [0..<nat N]))"
proof -
  define gv where "gv = (\<lambda>u v. projr (GenVertexData A coeffs u v))"
  have gen: "GenVertexData A coeffs u v = Inr (gv u v)" for u v
    unfolding gv_def using assms by (rule GenVertexData_total)
  define inner where "inner = (\<lambda>i j vtxData.
         (case GenVertexData A coeffs (real j / of_int M) (real i / of_int N) of
            Inl err \<Rightarrow> Inl err
          | Inr v1 \<Rightarrow>
         (case GenVertexData A coeffs (real j / of_int M) (real (i + 1) / of_int N) of
            Inl err \<Rightarrow> Inl err
          | Inr v2 \<Rightarrow> Inr ((vtxData @ [v1]) @ [v2]))))"
  have inner: "inner i j s = Inr (s @ [gv (real j / of_int M) (real i / of_int N),
                                       gv (real j / of_int M) (real (i + 1) / of_int N)])"
    for i j s
    by (simp add: inner_def gen)
  have row: "for_each [0..<nat (M + 1)] (inner i) s =
      Inr (s @ concat (map (\<lambda>j. [gv (real j / of_int M) (real i / of_int N),
                                   gv (real j / of_int M) (real (i + 1) / of_int N)])
                        [0..<nat (M + 1)]))" for i s
    by (rule for_each_appends) (rule inner)
  have "for_each [0..<nat N] (\<lambda>i. for_each [0..<nat (M + 1)] (inner i)) [] =
      Inr ([] @ concat (map (\<lambda>i. concat (map (\<lambda>j. [gv (real j / of_int M) (real i / of_int N),
                                   gv (real j / of_int M) (real (i + 1) / of_int N)])
                        [0..<nat (M + 1)])) [0..<nat N]))"
    by (rule for_each_appends) (rule row)
  then show ?thesis
    by (simp add: genStrips_def inner_def gv_def)
qed

lemma genStrips_length:
  assumes "genStrips A coeffs N M = Inr raw"
  shows "length raw = 2 * nat (M + 1) * nat N"
proof -
  define inner where "inner = (\<lambda>i j vtxData.
         (case GenVertexData A coeffs (real j / of_int M) (real i / of_int N) of
            Inl err \<Rightarrow> Inl err
          | Inr v1 \<Rightarrow>
         (case GenVertexData A coeffs (real j / of_int M) (real (i + 1) / of_int N) of
            Inl err \<Rightarrow> Inl err
          | Inr v2 \<Rightarrow> Inr ((vtxData @ [v1]) @ [v2]))))"
  have inner: "length s' = length s + 2" if "inner i j s = Inr s'" for i j s s'
    using that by (auto simp: inner_def split: sum.splits)
  have row: "length s' = length s + 2 * nat (M + 1)"
    if "for_each [0..<nat (M + 1)] (inner i) s = Inr s'" for i s s'
    using for_each_length [where body = "inner i" and c = 2, OF inner that] by simp
  have "for_each [0..<nat N] (\<lambda>i. for_each [0..<nat (M + 1)] (inner i)) [] = Inr raw"
    using assms by (simp add: genStrips_def inner_def)
  from for_each_length [where body = "\<lambda>i. for_each [0..<nat (M + 1)] (inner i)", OF row this]
  show ?thesis by simp
qed

lemma nth_concat_uniform:
  assumes "\<And>x. x \<in> set xs \<Longrightarrow> length (f x) = m" and "i < length xs" and "j < m"
  shows "concat (map f xs) ! (i * m + j) = f (xs ! i) ! j"
  using assms
proof (induction xs arbitrary: i)
  case Nil
  then show ?case by simp
next
  case (Cons x xs)
  have len: "length (f x) = m" using Cons.prems(1) by simp
  show ?case
  proof (cases i)
    case 0
    with Cons.prems len show ?thesis by (simp add: nth_append)
  next
    case (Suc k)
    with Cons.prems have "concat (map f xs) ! (k * m + j) = f (xs ! k) ! j"
      by (intro Cons.IH) simp_all
    with Suc len show ?thesis by (simp add: nth_append)
  qed
qed

lemma strips_partition:
  "concat (map (\<lambda>(first, count). [first..<first + count])
      (map (\<lambda>i. (i * m, m)) [0..<n])) = [0..<n * (m::nat)]"
proof (induction n)
  case 0
  show ?case by simp
next
  case (Suc n)
  have "[0..<n * m + m] = [0..<n * m] @ [n * m..<n * m + m]"
    by (rule upt_add_eq_append) simp
  moreover have "Suc n * m = n * m + m" by simp
  ultimately have "[0..<Suc n * m] = [0..<n * m] @ [n * m..<n * m + m]"
    by (simp only:)
  with Suc show ?case by simp
qed

section \<open>Tessellation: the normalisation pass\<close>

lemma drop_as_nth: "map ((!) xs) [a..<length xs] = drop a xs"
  by (simp add: list_eq_iff_nth_eq)

lemma scan_min_max:
  fixes lo hi :: real
  assumes "lo \<le> hi"
  shows "fold (\<lambda>t (hmin, hmax). if t > hmax then (hmin, t)
                                else if t < hmin then (t, hmax) else (hmin, hmax)) ts (lo, hi)
         = (fold min ts lo, fold max ts hi)"
  using assms
proof (induction ts arbitrary: lo hi)
  case Nil
  show ?case by simp
next
  case (Cons t ts)
  consider "t > hi" | "t < lo" | "lo \<le> t" "t \<le> hi" by linarith
  then show ?case
  proof cases
    case 1
    with Cons.prems have "lo \<le> t" "min t lo = lo" "max t hi = t" by simp_all
    with 1 Cons.IH [of lo t] show ?thesis by simp
  next
    case 2
    with Cons.prems have "t \<le> hi" "\<not> t > hi" "min t lo = t" "max t hi = hi" by simp_all
    with 2 Cons.IH [of t hi] show ?thesis by simp
  next
    case 3
    with Cons.prems have "\<not> t > hi" "\<not> t < lo" "min t lo = lo" "max t hi = hi" by simp_all
    with Cons.prems Cons.IH [of lo hi] show ?thesis by simp
  qed
qed

lemma heightRange_eq:
  assumes "vtxData \<noteq> []"
  shows "heightRange vtxData = Inr (Min (h ` set vtxData), Max (h ` set vtxData))"
proof -
  from assms obtain v0 rest where vs: "vtxData = v0 # rest" by (cases vtxData) auto
  have "map (\<lambda>i. h (vtxData ! i)) [1..<length vtxData]
        = map h (map ((!) vtxData) [1..<length vtxData])"
    by (simp add: comp_def)
  also have "\<dots> = map h (drop 1 vtxData)"
    by (simp only: drop_as_nth)
  finally have idx: "map (\<lambda>i. h (vtxData ! i)) [1..<length vtxData] = map h rest"
    by (simp add: vs)
  have "fold (\<lambda>i (hmin, hmax).
                  if h (vtxData ! i) > hmax then (hmin, h (vtxData ! i))
                  else if h (vtxData ! i) < hmin then (h (vtxData ! i), hmax)
                  else (hmin, hmax))
                [1..<length vtxData] (h v0, h v0)
        = fold (\<lambda>t (hmin, hmax). if t > hmax then (hmin, t)
                                else if t < hmin then (t, hmax) else (hmin, hmax))
            (map (\<lambda>i. h (vtxData ! i)) [1..<length vtxData]) (h v0, h v0)"
    by (simp add: fold_map comp_def)
  also have "\<dots> = (fold min (map h rest) (h v0), fold max (map h rest) (h v0))"
    unfolding idx by (rule scan_min_max) simp
  also have "fold min (map h rest) (h v0) = Min (set (h v0 # map h rest))"
    by (rule Min.set_eq_fold [symmetric])
  also have "fold max (map h rest) (h v0) = Max (set (h v0 # map h rest))"
    by (rule Max.set_eq_fold [symmetric])
  finally have scan: "fold (\<lambda>i (hmin, hmax).
                  if h (vtxData ! i) > hmax then (hmin, h (vtxData ! i))
                  else if h (vtxData ! i) < hmin then (h (vtxData ! i), hmax)
                  else (hmin, hmax))
                [1..<length vtxData] (h v0, h v0)
        = (Min (set (h v0 # map h rest)), Max (set (h v0 # map h rest)))" .
  have img: "set (h v0 # map h rest) = h ` set vtxData"
    by (simp add: vs)
  have first: "vtxData ! 0 = v0" and nonempty: "length vtxData \<noteq> 0"
    by (simp_all add: vs)
  show ?thesis
    unfolding heightRange_def first
    by (simp only: nonempty if_False scan img)
qed

lemma heightRange_empty: "heightRange [] = Inl OutOfRange"
  by (simp add: heightRange_def)

lemma update_loop:
  assumes "k \<le> length vs"
  shows "fold (\<lambda>i vs. vs[i := g (vs ! i)]) [0..<k] vs = map g (take k vs) @ drop k vs"
  using assms
proof (induction k)
  case 0
  show ?case by simp
next
  case (Suc k)
  then have k: "k < length vs" by simp
  have "fold (\<lambda>i vs. vs[i := g (vs ! i)]) [0..<Suc k] vs
        = (map g (take k vs) @ drop k vs)[k := g ((map g (take k vs) @ drop k vs) ! k)]"
    using Suc by simp
  also have "(map g (take k vs) @ drop k vs) ! k = vs ! k"
    using k by (simp add: nth_append)
  also have "(map g (take k vs) @ drop k vs)[k := g (vs ! k)]
        = map g (take k vs) @ (drop k vs)[0 := g (vs ! k)]"
    using k by (simp add: list_update_append)
  also have "(drop k vs)[0 := g (vs ! k)] = g (vs ! k) # drop (Suc k) vs"
    using k by (simp add: Cons_nth_drop_Suc [symmetric])
  also have "map g (take k vs) @ g (vs ! k) # drop (Suc k) vs
        = map g (take (Suc k) vs) @ drop (Suc k) vs"
    using k by (simp add: take_Suc_conv_app_nth)
  finally show ?case .
qed

lemma normalizeHeights_eq:
  "normalizeHeights hmin hmax vtxData
     = map (\<lambda>v. v\<lparr>h := (h v - hmin) / (hmax - hmin)\<rparr>) vtxData"
  unfolding normalizeHeights_def
  using update_loop [of "length vtxData" vtxData "\<lambda>v. v\<lparr>h := (h v - hmin) / (hmax - hmin)\<rparr>"]
  by simp

lemma normalized_range:
  fixes H :: "real set"
  assumes "finite H" and "H \<noteq> {}" and "Min H < Max H"
  shows "Min ((\<lambda>t. (t - Min H) / (Max H - Min H)) ` H) = 0"
    and "Max ((\<lambda>t. (t - Min H) / (Max H - Min H)) ` H) = 1"
proof -
  have m: "mono (\<lambda>t. (t - Min H) / (Max H - Min H))"
    using assms(3) by (intro monoI divide_right_mono) simp_all
  have "Min ((\<lambda>t. (t - Min H) / (Max H - Min H)) ` H) = (Min H - Min H) / (Max H - Min H)"
    using mono_Min_commute [OF m assms(1,2)] by simp
  then show "Min ((\<lambda>t. (t - Min H) / (Max H - Min H)) ` H) = 0" by simp
  have "Max ((\<lambda>t. (t - Min H) / (Max H - Min H)) ` H) = (Max H - Min H) / (Max H - Min H)"
    using mono_Max_commute [OF m assms(1,2)] by simp
  with assms(3) show "Max ((\<lambda>t. (t - Min H) / (Max H - Min H)) ` H) = 1" by simp
qed

lemma create_eq:
  assumes "genStrips A coeffs N M = Inr raw" and "raw \<noteq> []"
  shows "create A coeffs N M =
     Inr \<lparr>nVtxPerStrip = nat ((M + 1) * 2), nStrips = nat N,
          vbo = map (\<lambda>v. v\<lparr>h := (h v - Min (h ` set raw))
                                 / (Max (h ` set raw) - Min (h ` set raw))\<rparr>) raw\<rparr>"
proof -
  have "length raw = 2 * nat (M + 1) * nat N"
    using assms(1) by (rule genStrips_length)
  moreover from assms(2) have "0 < length raw" by simp
  ultimately have pos: "0 < nat (M + 1)" and raw: "length raw = 2 * nat (M + 1) * nat N"
    by simp_all
  from pos have "0 \<le> M + 1" by simp
  then have "nat ((M + 1) * 2) = nat (M + 1) * nat 2"
    by (rule nat_mult_distrib)
  then have eq: "nat ((M + 1) * 2) = 2 * nat (M + 1)" by simp
  have len: "nat ((M + 1) * 2) * nat N = length raw"
    unfolding eq raw ..
  show ?thesis
    unfolding create_def assms(1) sum.case heightRange_eq [OF assms(2)] prod.case
      normalizeHeights_eq len
    by simp
qed

lemma create_empty:
  assumes "genStrips A coeffs N M = Inr []"
  shows "create A coeffs N M = Inl OutOfRange"
  by (simp add: create_def assms heightRange_empty)

section \<open>Tessellation: results about \<^verbatim>\<open>create\<close> and \<^verbatim>\<open>Draw\<close>\<close>

lemma double_less: "a < b \<Longrightarrow> 2 * a + 1 < 2 * (b::nat)"
  by simp

lemma genStrips_nth:
  assumes len: "1260 < length coeffs" and raw: "genStrips A coeffs N M = Inr raw"
    and row: "row < nat N" and col: "col < nat (M + 1)" and b: "b < 2"
  shows "raw ! (2 * (row * nat (M + 1) + col) + b) =
     [projr (GenVertexData A coeffs (real col / of_int M) (real row / of_int N)),
      projr (GenVertexData A coeffs (real col / of_int M) (real (row + 1) / of_int N))] ! b"
proof -
  define pair where "pair = (\<lambda>i j.
     [projr (GenVertexData A coeffs (real j / of_int M) (real i / of_int N)),
      projr (GenVertexData A coeffs (real j / of_int M) (real (i + 1) / of_int N))])"
  define strip where "strip = (\<lambda>i. concat (map (pair i) [0..<nat (M + 1)]))"
  have raw_eq: "raw = concat (map strip [0..<nat N])"
    using genStrips_eq [OF len, of A N M] raw by (simp add: strip_def pair_def)
  have pair_len: "length (pair i j) = 2" for i j
    by (simp add: pair_def)
  have strip_nth: "strip i ! (j * 2 + b) = pair i j ! b" if "j < nat (M + 1)" for i j
    unfolding strip_def
    using nth_concat_uniform [where f = "pair i" and xs = "[0..<nat (M + 1)]" and m = 2
        and i = j and j = b] that b
    by (simp add: pair_len)
  have strip_len: "length (strip i) = nat (M + 1) * 2" for i
    by (simp add: strip_def length_concat comp_def pair_len sum_list_triv)
  have "2 * col + b < nat (M + 1) * 2"
    using col b by simp
  then have "raw ! (row * (nat (M + 1) * 2) + (2 * col + b)) = strip row ! (2 * col + b)"
    unfolding raw_eq
    using nth_concat_uniform [where f = strip and xs = "[0..<nat N]" and m = "nat (M + 1) * 2"
        and i = row and j = "2 * col + b"] row
    by (simp add: strip_len)
  also have "\<dots> = pair row col ! b"
    using strip_nth [OF col, of row] by (simp add: mult.commute)
  finally show ?thesis
    by (simp add: pair_def algebra_simps)
qed

text \<open>
  A mesh whose heights are not all equal: with \<open>A > 0\<close> and a phase table of zeros the
  height at the parametric point \<open>(1, 1)\<close>, where every cosine is 1, is larger than the
  height at \<open>(0, 0)\<close>.
\<close>

lemma GenVertexData_height:
  assumes "1260 < length coeffs"
  shows "h (projr (GenVertexData A coeffs u v)) =
     (\<Sum>i = 0..35. \<Sum>j = 0..35.
        E A i j * cos (of_int i * (u * pi - pi) + of_int j * (v * pi - pi)
                       + coeffs ! nat (i * 35 + j)))"
proof -
  have "\<forall>i\<in>{0..35::int}. \<forall>j\<in>{0..35::int}. nat (i * 35 + j) < length coeffs"
    using assms by (subst largest_read) simp
  then show ?thesis
    unfolding GenVertexData_def getTerrainInfo_sums by simp
qed

lemma E_nonneg: "0 \<le> A \<Longrightarrow> 0 \<le> E A i j"
  by (simp add: E_def)

lemma flat_phases_heights_differ:
  assumes A: "0 < A" and flat: "\<And>k. k \<le> 1260 \<Longrightarrow> coeffs ! k = 0"
  shows "(\<Sum>i = 0..35. \<Sum>j = 0..35.
            E A i j * cos (of_int i * (0 * pi - pi) + of_int j * (0 * pi - pi)
                           + coeffs ! nat (i * 35 + j)))
       < (\<Sum>i = 0..35. \<Sum>j = 0..35.
            E A i j * cos (of_int i * (1 * pi - pi) + of_int j * (1 * pi - pi)
                           + coeffs ! nat (i * 35 + j)))"
proof -
  define lo where "lo = (\<lambda>i j. E A i j * cos (of_int i * (0 * pi - pi)
      + of_int j * (0 * pi - pi) + coeffs ! nat (i * 35 + j)))"
  define hi where "hi = (\<lambda>i j. E A i j * cos (of_int i * (1 * pi - pi)
      + of_int j * (1 * pi - pi) + coeffs ! nat (i * 35 + j)))"
  have phase: "coeffs ! nat (i * 35 + j) = 0" if "i \<in> {0..35}" "j \<in> {0..35}" for i j :: int
  proof (rule flat)
    from that have "i * 35 \<le> 35 * 35" and "j \<le> 35" by simp_all
    then have "i * 35 + j \<le> 1260" by simp
    then show "nat (i * 35 + j) \<le> 1260" by simp
  qed
  have hi: "hi i j = E A i j" if "i \<in> {0..35}" "j \<in> {0..35}" for i j
    using that by (simp add: hi_def phase)
  have le: "lo i j \<le> hi i j" if "i \<in> {0..35}" "j \<in> {0..35}" for i j
  proof -
    have "E A i j * cos (of_int i * (0 * pi - pi) + of_int j * (0 * pi - pi)
        + coeffs ! nat (i * 35 + j)) \<le> E A i j * 1"
      using A by (intro mult_left_mono E_nonneg) simp_all
    with that show ?thesis by (simp add: lo_def hi)
  qed
  have "coeffs ! Suc 0 = 0"
    by (rule flat) simp
  then have strict: "lo 0 1 < hi 0 1"
    using A by (simp add: lo_def hi_def E_def)
  have row_le: "(\<Sum>j = 0..35. lo i j) \<le> (\<Sum>j = 0..35. hi i j)" if "i \<in> {0..35}" for i
    using that by (intro sum_mono le)
  have row0: "(\<Sum>j = 0..35. lo 0 j) < (\<Sum>j = 0..35. hi 0 j)"
  proof (rule sum_strict_mono_ex1)
    show "finite {0..35::int}" by simp
    show "\<forall>j\<in>{0..35}. lo 0 j \<le> hi 0 j" by (simp add: le)
    show "\<exists>j\<in>{0..35}. lo 0 j < hi 0 j" using strict by (intro bexI [of _ 1]) simp_all
  qed
  have "(\<Sum>i = 0..35. \<Sum>j = 0..35. lo i j) < (\<Sum>i = 0..35. \<Sum>j = 0..35. hi i j)"
  proof (rule sum_strict_mono_ex1)
    show "finite {0..35::int}" by simp
    show "\<forall>i\<in>{0..35}. (\<Sum>j = 0..35. lo i j) \<le> (\<Sum>j = 0..35. hi i j)"
      by (simp add: row_le)
    show "\<exists>i\<in>{0..35}. (\<Sum>j = 0..35. lo i j) < (\<Sum>j = 0..35. hi i j)"
      using row0 by (intro bexI [of _ 0]) simp_all
  qed
  then show ?thesis
    unfolding lo_def hi_def .
qed

lemma flat_mesh_nondegenerate:
  assumes raw: "genStrips (1 / 2) (replicate 1261 0) 1 1 = Inr raw"
  shows "Min (h ` set raw) < Max (h ` set raw)"
proof -
  define cs :: "real list" where "cs = replicate 1261 0"
  have len: "1260 < length cs" by (simp add: cs_def)
  have flat: "cs ! k = 0" if "k \<le> 1260" for k
    using that by (simp add: cs_def)
  have raw': "genStrips (1 / 2) cs 1 1 = Inr raw"
    using raw by (simp add: cs_def)
  have size: "length raw = 4"
    using genStrips_length [OF raw'] by simp
  have "raw ! (2 * (0 * nat (1 + 1) + 0) + 0) =
      [projr (GenVertexData (1 / 2) cs (real 0 / of_int 1) (real 0 / of_int 1)),
       projr (GenVertexData (1 / 2) cs (real 0 / of_int 1) (real (0 + 1) / of_int 1))] ! 0"
    by (rule genStrips_nth [OF len raw']) simp_all
  then have first: "raw ! 0 = projr (GenVertexData (1 / 2) cs 0 0)"
    by simp
  have "raw ! (2 * (0 * nat (1 + 1) + 1) + 1) =
      [projr (GenVertexData (1 / 2) cs (real 1 / of_int 1) (real 0 / of_int 1)),
       projr (GenVertexData (1 / 2) cs (real 1 / of_int 1) (real (0 + 1) / of_int 1))] ! 1"
    by (rule genStrips_nth [OF len raw']) simp_all
  then have last: "raw ! 3 = projr (GenVertexData (1 / 2) cs 1 1)"
    by simp
  have "h (raw ! 0) < h (raw ! 3)"
    unfolding first last GenVertexData_height [OF len]
    by (rule flat_phases_heights_differ) (simp_all add: flat)
  moreover have "Min (h ` set raw) \<le> h (raw ! 0)"
    using size by (intro Min_le) simp_all
  moreover have "h (raw ! 3) \<le> Max (h ` set raw)"
    using size by (intro Max_ge) simp_all
  ultimately show ?thesis by linarith
qed

text \<open>
  Claim C3. For \<open>N, M > 0\<close>, let \<open>raw\<close> be the vertices that the two loops of \<^verbatim>\<open>create\<close>
  generate, and let the smallest raw height be below the largest. Then \<^verbatim>\<open>create\<close>
  returns, every vertex of its buffer is the raw vertex with the height rewritten to
  \<open>(height - min) / (max - min)\<close>, and over the buffer the smallest height is 0 and the
  largest is 1.
\<close>

theorem create_normalizes_heights:
  assumes "0 < N" and "0 < M"
    and "genStrips A coeffs N M = Inr raw"
    and "Min (h ` set raw) < Max (h ` set raw)"
  shows "\<exists>ps. create A coeffs N M = Inr ps
     \<and> vbo ps = map (\<lambda>v. v\<lparr>h := (h v - Min (h ` set raw))
                                 / (Max (h ` set raw) - Min (h ` set raw))\<rparr>) raw
     \<and> Min (h ` set (vbo ps)) = 0 \<and> Max (h ` set (vbo ps)) = 1"
proof -
  have "length raw = 2 * nat (M + 1) * nat N"
    using assms(3) by (rule genStrips_length)
  with assms(1,2) have nonempty: "raw \<noteq> []" by auto
  define H where "H = h ` set raw"
  define ps where "ps = \<lparr>nVtxPerStrip = nat ((M + 1) * 2), nStrips = nat N,
          vbo = map (\<lambda>v. v\<lparr>h := (h v - Min H) / (Max H - Min H)\<rparr>) raw\<rparr>"
  have created: "create A coeffs N M = Inr ps"
    unfolding ps_def H_def using assms(3) nonempty by (rule create_eq)
  have fin: "finite H" "H \<noteq> {}"
    using nonempty by (simp_all add: H_def)
  have "h ` set (vbo ps) = (\<lambda>t. (t - Min H) / (Max H - Min H)) ` H"
    by (simp add: ps_def H_def image_image)
  with normalized_range [OF fin] assms(4)
  have "Min (h ` set (vbo ps)) = 0" "Max (h ` set (vbo ps)) = 1"
    by (simp_all add: H_def)
  with created show ?thesis
    by (intro exI [of _ ps]) (simp add: ps_def H_def)
qed

theorem create_normalizes_heights_witness:
  "\<exists>ps. create (1 / 2) (replicate 1261 0) 1 1 = Inr ps
     \<and> length (vbo ps) = 4
     \<and> Min (h ` set (vbo ps)) = 0 \<and> Max (h ` set (vbo ps)) = 1"
proof -
  have N: "(0::int) < 1" and M: "(0::int) < 1" by simp_all
  obtain raw where raw: "genStrips (1 / 2) (replicate 1261 0) 1 1 = Inr raw"
    using genStrips_eq [of "replicate 1261 0" "1 / 2" 1 1] by auto
  have size: "length raw = 4"
    using genStrips_length [OF raw] by simp
  from create_normalizes_heights [OF N M raw flat_mesh_nondegenerate [OF raw]]
  obtain ps where "create (1 / 2) (replicate 1261 0) 1 1 = Inr ps"
    and "vbo ps = map (\<lambda>v. v\<lparr>h := (h v - Min (h ` set raw))
                                 / (Max (h ` set raw) - Min (h ` set raw))\<rparr>) raw"
    and "Min (h ` set (vbo ps)) = 0" and "Max (h ` set (vbo ps)) = 1"
    by blast
  with size show ?thesis by (intro exI [of _ ps]) simp
qed

text \<open>
  Claim C4. For \<open>N, M > 0\<close> (and a phase table that covers the reads of the truncation
  order 35) \<^verbatim>\<open>create\<close> returns a buffer of \<open>N \<cdot> (M + 1) \<cdot> 2\<close> vertices; the vertices at the
  indices \<open>2 \<cdot> (row \<cdot> (M + 1) + col)\<close> and the next one are the samples at the parametric
  points \<open>(col / M, row / N)\<close> and \<open>(col / M, (row + 1) / N)\<close>; \<^verbatim>\<open>Draw\<close> issues the \<open>N\<close> ranges
  of \<open>(M + 1) \<cdot> 2\<close> vertices that start at \<open>i \<cdot> (M + 1) \<cdot> 2\<close>, and these ranges, one after
  the other, list every index of the buffer exactly once.
\<close>

theorem create_mesh_layout:
  assumes "0 < N" and "0 < M" and "1260 < length coeffs"
  shows "\<exists>ps. create A coeffs N M = Inr ps
     \<and> length (vbo ps) = nat (N * (M + 1) * 2)
     \<and> (\<forall>row col. row < nat N \<and> col \<le> nat M \<longrightarrow>
          (\<exists>v1 v2.
              GenVertexData A coeffs (real col / of_int M) (real row / of_int N) = Inr v1
            \<and> GenVertexData A coeffs (real col / of_int M) (real (row + 1) / of_int N) = Inr v2
            \<and> position (vbo ps ! (2 * (row * nat (M + 1) + col))) = position v1
            \<and> normal (vbo ps ! (2 * (row * nat (M + 1) + col))) = normal v1
            \<and> position (vbo ps ! (2 * (row * nat (M + 1) + col) + 1)) = position v2
            \<and> normal (vbo ps ! (2 * (row * nat (M + 1) + col) + 1)) = normal v2))
     \<and> Draw ps = map (\<lambda>i. (i * nat ((M + 1) * 2), nat ((M + 1) * 2))) [0..<nat N]
     \<and> concat (map (\<lambda>(first, count). [first..<first + count]) (Draw ps))
         = [0..<length (vbo ps)]"
proof -
  obtain raw where raw: "genStrips A coeffs N M = Inr raw"
    using genStrips_eq [OF assms(3)] by blast
  have len: "length raw = 2 * nat (M + 1) * nat N"
    using raw by (rule genStrips_length)
  with assms(1,2) have nonempty: "raw \<noteq> []" by auto
  define f where "f = (\<lambda>v :: VertexData. v\<lparr>h := (h v - Min (h ` set raw))
                                 / (Max (h ` set raw) - Min (h ` set raw))\<rparr>)"
  define ps where "ps = \<lparr>nVtxPerStrip = nat ((M + 1) * 2), nStrips = nat N, vbo = map f raw\<rparr>"
  have created: "create A coeffs N M = Inr ps"
    unfolding ps_def f_def using raw nonempty by (rule create_eq)
  have "nat ((M + 1) * 2) = nat (M + 1) * nat 2"
    using assms(2) by (intro nat_mult_distrib) simp
  then have per_strip: "nat ((M + 1) * 2) = 2 * nat (M + 1)" by simp
  have "nat (N * (M + 1) * 2) = nat (N * (M + 1)) * nat 2"
    using assms(1,2) by (intro nat_mult_distrib) simp
  also have "nat (N * (M + 1)) = nat N * nat (M + 1)"
    using assms(1) by (intro nat_mult_distrib) simp
  finally have count: "length (vbo ps) = nat (N * (M + 1) * 2)"
    by (simp add: ps_def len)
  have vertices: "\<exists>v1 v2.
              GenVertexData A coeffs (real col / of_int M) (real row / of_int N) = Inr v1
            \<and> GenVertexData A coeffs (real col / of_int M) (real (row + 1) / of_int N) = Inr v2
            \<and> position (vbo ps ! (2 * (row * nat (M + 1) + col))) = position v1
            \<and> normal (vbo ps ! (2 * (row * nat (M + 1) + col))) = normal v1
            \<and> position (vbo ps ! (2 * (row * nat (M + 1) + col) + 1)) = position v2
            \<and> normal (vbo ps ! (2 * (row * nat (M + 1) + col) + 1)) = normal v2"
    if rc: "row < nat N \<and> col \<le> nat M" for row col
  proof -
    define v1 where "v1 = projr (GenVertexData A coeffs (real col / of_int M) (real row / of_int N))"
    define v2 where
      "v2 = projr (GenVertexData A coeffs (real col / of_int M) (real (row + 1) / of_int N))"
    from rc have row: "row < nat N" by simp
    from assms(2) have "nat (M + 1) = Suc (nat M)" by linarith
    with rc have col: "col < nat (M + 1)" by simp
    have "row * nat (M + 1) + col < nat N * nat (M + 1)"
    proof -
      have "row * nat (M + 1) + col < row * nat (M + 1) + nat (M + 1)" using col by simp
      also have "\<dots> = Suc row * nat (M + 1)" by simp
      also have "\<dots> \<le> nat N * nat (M + 1)" using row by (intro mult_le_mono1) simp
      finally show ?thesis .
    qed
    then have "2 * (row * nat (M + 1) + col) + 1 < 2 * (nat N * nat (M + 1))"
      by (rule double_less)
    moreover have "length raw = 2 * (nat N * nat (M + 1))"
      by (simp add: len)
    ultimately have k: "2 * (row * nat (M + 1) + col) + 1 < length raw"
      by (simp only:)
    have r0: "raw ! (2 * (row * nat (M + 1) + col)) = v1"
      using genStrips_nth [OF assms(3) raw row col, of 0] by (simp add: v1_def)
    have r1: "raw ! (2 * (row * nat (M + 1) + col) + 1) = v2"
      using genStrips_nth [OF assms(3) raw row col, of 1] by (simp add: v2_def)
    have "vbo ps ! (2 * (row * nat (M + 1) + col)) = f v1"
      and "vbo ps ! (2 * (row * nat (M + 1) + col) + 1) = f v2"
      using k r0 r1 by (simp_all add: ps_def)
    moreover have "GenVertexData A coeffs (real col / of_int M) (real row / of_int N) = Inr v1"
      unfolding v1_def using assms(3) by (rule GenVertexData_total)
    moreover
    have "GenVertexData A coeffs (real col / of_int M) (real (row + 1) / of_int N) = Inr v2"
      unfolding v2_def using assms(3) by (rule GenVertexData_total)
    ultimately show ?thesis
      by (intro exI [of _ v1] exI [of _ v2]) (simp add: f_def)
  qed
  have draw: "Draw ps = map (\<lambda>i. (i * nat ((M + 1) * 2), nat ((M + 1) * 2))) [0..<nat N]"
    by (simp add: Draw_def ps_def)
  have "concat (map (\<lambda>(first, count). [first..<first + count]) (Draw ps))
      = [0..<nat N * nat ((M + 1) * 2)]"
    unfolding draw by (rule strips_partition)
  also have "nat N * nat ((M + 1) * 2) = length (vbo ps)"
    unfolding per_strip by (simp add: ps_def len)
  finally have cover: "concat (map (\<lambda>(first, count). [first..<first + count]) (Draw ps))
      = [0..<length (vbo ps)]" .
  from created count vertices draw cover show ?thesis
    by (intro exI [of _ ps] conjI allI impI)
qed

theorem create_mesh_layout_witness:
  "\<exists>ps. create (1 / 2) (replicate 1261 0) 2 3 = Inr ps
     \<and> length (vbo ps) = 16
     \<and> (\<exists>v1 v2.
              GenVertexData (1 / 2) (replicate 1261 0) (2 / 3) (1 / 2) = Inr v1
            \<and> GenVertexData (1 / 2) (replicate 1261 0) (2 / 3) (2 / 2) = Inr v2
            \<and> position (vbo ps ! 12) = position v1
            \<and> normal (vbo ps ! 12) = normal v1
            \<and> position (vbo ps ! 13) = position v2
            \<and> normal (vbo ps ! 13) = normal v2)
     \<and> Draw ps = [(0, 8), (8, 8)]
     \<and> concat (map (\<lambda>(first, count). [first..<first + count]) (Draw ps)) = [0..<16]"
proof -
  have N: "(0::int) < 2" and M: "(0::int) < 3" by simp_all
  have len: "1260 < length (replicate 1261 (0::real))" by simp
  from create_mesh_layout [OF N M len, of "1 / 2"]
  obtain ps where created: "create (1 / 2) (replicate 1261 0) 2 3 = Inr ps"
    and count: "length (vbo ps) = nat (2 * (3 + 1) * 2)"
    and vertices: "\<forall>row col. row < nat 2 \<and> col \<le> nat 3 \<longrightarrow>
          (\<exists>v1 v2.
              GenVertexData (1 / 2) (replicate 1261 0) (real col / of_int 3) (real row / of_int 2)
                = Inr v1
            \<and> GenVertexData (1 / 2) (replicate 1261 0) (real col / of_int 3)
                 (real (row + 1) / of_int 2) = Inr v2
            \<and> position (vbo ps ! (2 * (row * nat (3 + 1) + col))) = position v1
            \<and> normal (vbo ps ! (2 * (row * nat (3 + 1) + col))) = normal v1
            \<and> position (vbo ps ! (2 * (row * nat (3 + 1) + col) + 1)) = position v2
            \<and> normal (vbo ps ! (2 * (row * nat (3 + 1) + col) + 1)) = normal v2)"
    and draw: "Draw ps = map (\<lambda>i. (i * nat ((3 + 1) * 2), nat ((3 + 1) * 2))) [0..<nat 2]"
    and cover: "concat (map (\<lambda>(first, count). [first..<first + count]) (Draw ps))
         = [0..<length (vbo ps)]"
    by blast
  have "(1::nat) < nat 2 \<and> (2::nat) \<le> nat 3" by simp
  with vertices have "\<exists>v1 v2.
              GenVertexData (1 / 2) (replicate 1261 0) (real 2 / of_int 3) (real 1 / of_int 2)
                = Inr v1
            \<and> GenVertexData (1 / 2) (replicate 1261 0) (real 2 / of_int 3)
                 (real (1 + 1) / of_int 2) = Inr v2
            \<and> position (vbo ps ! (2 * (1 * nat (3 + 1) + 2))) = position v1
            \<and> normal (vbo ps ! (2 * (1 * nat (3 + 1) + 2))) = normal v1
            \<and> position (vbo ps ! (2 * (1 * nat (3 + 1) + 2) + 1)) = position v2
            \<and> normal (vbo ps ! (2 * (1 * nat (3 + 1) + 2) + 1)) = normal v2"
    by blast
  then have v: "\<exists>v1 v2.
              GenVertexData (1 / 2) (replicate 1261 0) (2 / 3) (1 / 2) = Inr v1
            \<and> GenVertexData (1 / 2) (replicate 1261 0) (2 / 3) (2 / 2) = Inr v2
            \<and> position (vbo ps ! 12) = position v1
            \<and> normal (vbo ps ! 12) = normal v1
            \<and> position (vbo ps ! 13) = position v2
            \<and> normal (vbo ps ! 13) = normal v2"
    by simp
  from count have c: "length (vbo ps) = 16" by simp
  from draw have d: "Draw ps = [(0, 8), (8, 8)]" by (simp add: upt_rec)
  from created c v d cover show ?thesis
    by (intro exI [of _ ps]) simp
qed

text \<open>
  Claim C6, where the code departs from it. With \<open>N = 0\<close> the loops push no vertex, and
  the read of \<^verbatim>\<open>vtxData[0]\<close> on line 351 is a read out of range of the empty vector, for
  every \<open>M\<close> and every phase table.
\<close>

theorem create_without_strips: "create A coeffs 0 M = Inl OutOfRange"
  by (rule create_empty) (simp add: genStrips_def)

end
